theory Spec2Isabelle
  imports Complex_Main
begin

section \<open>Python values, errors and networkx graphs\<close>

text \<open>
  Every \<open>raise\<close> of the source and every failing lookup is a value of \<open>error\<close>; a function
  that may raise returns \<open>error + 'a\<close> with \<open>Inl\<close> for the exception. The source raises the
  plain \<open>Exception\<close> class with a message; the message is kept, with the values an
  f-string interpolates into it left out.
\<close>

datatype error =
    Exception string
  | KeyError string
  | UnboundLocalError string
  | AttributeError string
  | IndexError string

text \<open>
  The LIF neuron object stored under the \<open>nx_LIF\<close> key of a simulated node. Its class is not
  among the sources; the readout only calls \<open>u.get()\<close> on it, the final current, which the
  result payload treats as an integer count.
\<close>

record lif_neuron =
  u :: int

datatype pyval =
    PNone
  | PBool bool
  | PInt int
  | PFloat real
  | PStr string
  | PLif lif_neuron

text \<open>Python's truth value of an object, as an \<open>if\<close> tests it.\<close>

fun truthy :: "pyval \<Rightarrow> bool" where
  "truthy PNone = False"
| "truthy (PBool b) = b"
| "truthy (PInt i) = (i \<noteq> 0)"
| "truthy (PFloat r) = (r \<noteq> 0)"
| "truthy (PStr s) = (s \<noteq> [])"
| "truthy (PLif l) = True"

text \<open>\<open>isinstance(x, int)\<close> holds for \<open>bool\<close> too (a subclass of \<open>int\<close>); \<open>isinstance(x, float)\<close>
  holds for floats only.\<close>

fun isinstance_int :: "pyval \<Rightarrow> bool" where
  "isinstance_int (PInt i) = True"
| "isinstance_int (PBool b) = True"
| "isinstance_int v = False"

fun isinstance_float :: "pyval \<Rightarrow> bool" where
  "isinstance_float (PFloat r) = True"
| "isinstance_float v = False"

text \<open>
  A networkx \<open>DiGraph\<close>: the node dictionary in insertion order (name, attribute dictionary),
  the edges, and the graph-level attribute dictionary \<open>G.graph\<close>. A lookup \<open>G.nodes[name]\<close> is
  \<open>map_of (nodes G) name\<close>; \<open>len(G)\<close> is the number of nodes.
\<close>

type_synonym attrs = "string \<rightharpoonup> pyval"

record ('n, 'p) digraph =
  nodes :: "('n \<times> attrs) list"
  edges :: "(('n \<times> 'n) \<times> attrs) list"
  graph_attrs :: "string \<rightharpoonup> 'p"

type_synonym 'p snn_graph = "(string, 'p) digraph"

section \<open>Neuron names\<close>

text \<open>The decimal rendering of an integer inside an f-string.\<close>

definition digit_char :: "nat \<Rightarrow> char" where
  "digit_char d = ''0123456789'' ! d"

fun str_nat :: "nat \<Rightarrow> string" where
  "str_nat n =
     (if n < 10 then [digit_char n] else str_nat (n div 10) @ [digit_char (n mod 10)])"

declare str_nat.simps [simp del]

definition str_int :: "int \<Rightarrow> string" where
  "str_int i = (if i < 0 then ''-'' @ str_nat (nat (- i)) else str_nat (nat i))"

text \<open>\<open>f"counter_{node_index}_{m_val}"\<close>\<close>

definition counter_name :: "nat \<Rightarrow> int \<Rightarrow> string" where
  "counter_name node_index m_val = ''counter_'' @ str_nat node_index @ ''_'' @ str_int m_val"

section \<open>Reading out the results (get\_mdsa\_results.py)\<close>

subsection \<open>graph\_has\_dead\_neurons\<close>

text \<open>The first loop: is the \<open>rad_death\<close> key in any node's attribute dictionary.\<close>

fun rad_death_found_loop :: "('n \<times> attrs) list \<Rightarrow> bool \<Rightarrow> bool" where
  "rad_death_found_loop [] rad_death_found = rad_death_found"
| "rad_death_found_loop ((nodename, node) # rest) rad_death_found =
     rad_death_found_loop rest (if node ''rad_death'' \<noteq> None then True else rad_death_found)"

text \<open>The second loop: raise at the first node without the key.\<close>

fun rad_death_everywhere_loop :: "('n \<times> attrs) list \<Rightarrow> error + unit" where
  "rad_death_everywhere_loop [] = Inr ()"
| "rad_death_everywhere_loop ((nodename, node) # rest) =
     (if node ''rad_death'' = None
      then Inl (Exception ''Error, rad_death key not set in all nodes ofgraph, yet it was set for at least one node in graph:'')
      else rad_death_everywhere_loop rest)"

definition graph_has_dead_neurons :: "('n, 'p) digraph \<Rightarrow> error + bool" where
  "graph_has_dead_neurons snn_graph =
     (if rad_death_found_loop (nodes snn_graph) False
      then (case rad_death_everywhere_loop (nodes snn_graph) of
              Inl e \<Rightarrow> Inl e
            | Inr _ \<Rightarrow> Inr True)
      else Inr False)"

subsection \<open>counter\_neuron\_died\<close>

definition counter_neuron_died :: "('n, 'p) digraph \<Rightarrow> 'n \<Rightarrow> error + pyval" where
  "counter_neuron_died snn_graph counter_neuron_name =
     (case graph_has_dead_neurons snn_graph of
        Inl e \<Rightarrow> Inl e
      | Inr True \<Rightarrow>
          (case map_of (nodes snn_graph) counter_neuron_name of
             None \<Rightarrow> Inl (KeyError ''node'')
           | Some node \<Rightarrow>
               (case node ''rad_death'' of
                  None \<Rightarrow> Inl (KeyError ''rad_death'')
                | Some v \<Rightarrow> Inr v))
      | Inr False \<Rightarrow> Inr (PBool False))"

subsection \<open>The two readouts\<close>

text \<open>\<open>G.nodes[name]["nx_LIF"].u.get()\<close>\<close>

definition read_u :: "('n, 'p) digraph \<Rightarrow> 'n \<Rightarrow> error + int" where
  "read_u G name =
     (case map_of (nodes G) name of
        None \<Rightarrow> Inl (KeyError ''node'')
      | Some node \<Rightarrow>
          (case node ''nx_LIF'' of
             None \<Rightarrow> Inl (KeyError ''nx_LIF'')
           | Some (PLif l) \<Rightarrow> Inr (u l)
           | Some _ \<Rightarrow> Inl (AttributeError ''u'')))"

fun count_without_redundancy_loop ::
  "'p snn_graph \<Rightarrow> int \<Rightarrow> nat list \<Rightarrow> (string \<rightharpoonup> int) \<Rightarrow> error + (string \<rightharpoonup> int)" where
  "count_without_redundancy_loop nx_SNN_G m_val [] node_counts = Inr node_counts"
| "count_without_redundancy_loop nx_SNN_G m_val (node_index # rest) node_counts =
     (case read_u nx_SNN_G (counter_name node_index m_val) of
        Inl e \<Rightarrow> Inl e
      | Inr c \<Rightarrow>
          count_without_redundancy_loop nx_SNN_G m_val rest
            (node_counts(counter_name node_index m_val \<mapsto> c)))"

definition get_nx_LIF_count_without_redundancy ::
  "('i, 'q) digraph \<Rightarrow> 'p snn_graph \<Rightarrow> int \<Rightarrow> error + (string \<rightharpoonup> int)" where
  "get_nx_LIF_count_without_redundancy input_graph nx_SNN_G m_val =
     count_without_redundancy_loop nx_SNN_G m_val [0..<length (nodes input_graph)] Map.empty"

fun count_with_redundancy_loop ::
  "'p snn_graph \<Rightarrow> int \<Rightarrow> nat list \<Rightarrow> (string \<rightharpoonup> int) \<Rightarrow> error + (string \<rightharpoonup> int)" where
  "count_with_redundancy_loop adapted_nx_snn_graph m_val [] node_counts = Inr node_counts"
| "count_with_redundancy_loop adapted_nx_snn_graph m_val (node_index # rest) node_counts =
     (case counter_neuron_died adapted_nx_snn_graph (counter_name node_index m_val) of
        Inl e \<Rightarrow> Inl e
      | Inr died \<Rightarrow>
          (case read_u adapted_nx_snn_graph
                  ((if truthy died then ''red_'' else '''') @ counter_name node_index m_val) of
             Inl e \<Rightarrow> Inl e
           | Inr c \<Rightarrow>
               count_with_redundancy_loop adapted_nx_snn_graph m_val rest
                 (node_counts(counter_name node_index m_val \<mapsto> c))))"

definition get_nx_LIF_count_with_redundancy ::
  "('i, 'q) digraph \<Rightarrow> 'p snn_graph \<Rightarrow> int \<Rightarrow> error + (string \<rightharpoonup> int)" where
  "get_nx_LIF_count_with_redundancy input_graph adapted_nx_snn_graph m_val =
     count_with_redundancy_loop adapted_nx_snn_graph m_val
       [0..<length (nodes input_graph)] Map.empty"

subsection \<open>get\_snn\_results\<close>

text \<open>
  The reference counts (\<open>alipour_counter_marks\<close>) map neuron names to integer counts. The two
  dictionaries are compared before the \<open>passed\<close> entry is stored in the SNN one, which is
  then returned: its values are the counts and that one boolean.
\<close>

definition get_snn_results ::
  "(string \<rightharpoonup> int) \<Rightarrow> ('i, 'q) digraph \<Rightarrow> int \<Rightarrow> bool \<Rightarrow> 'p snn_graph
     \<Rightarrow> error + (string \<rightharpoonup> pyval)" where
  "get_snn_results alipour_counter_marks input_graph m_val redundant snn_graph =
     (case (if \<not> redundant
            then get_nx_LIF_count_without_redundancy input_graph snn_graph m_val
            else get_nx_LIF_count_with_redundancy input_graph snn_graph m_val) of
        Inl e \<Rightarrow> Inl e
      | Inr snn_counter_marks \<Rightarrow>
          (if alipour_counter_marks = snn_counter_marks
           then Inr ((map_option PInt \<circ> snn_counter_marks)(''passed'' \<mapsto> PBool True))
           else Inr ((map_option PInt \<circ> snn_counter_marks)(''passed'' \<mapsto> PBool False))))"

subsection \<open>get\_mdsa\_snn\_results\<close>

text \<open>
  A value of the \<open>stage_2_graphs\<close> dictionary is a graph (the input graph) or a list of
  graphs, one per simulated timestep. \<open>get_alipour_nodes\<close> (the reference algorithm) is not
  among the sources: it is the parameter \<open>get_alipour_nodes\<close>, called with the input graph,
  \<open>m_val\<close> and the graph's \<open>alg_props\<close>.

  The variable \<open>latest_snn_graph\<close> is assigned only when the value is a list; it is \<open>None\<close>
  here while unbound, and reading it then raises \<open>UnboundLocalError\<close>.
\<close>

datatype ('i, 'q, 'p) stage_2_value =
    Graph "('i, 'q) digraph"
  | Graphs "'p snn_graph list"

definition read_latest_snn_graph ::
  "(string \<rightharpoonup> int) \<Rightarrow> ('i, 'q) digraph \<Rightarrow> int \<Rightarrow> bool \<Rightarrow> 'p snn_graph option
     \<Rightarrow> error + (string \<rightharpoonup> pyval)" where
  "read_latest_snn_graph alipour_counter_marks input_graph m_val redundant latest_snn_graph =
     (case latest_snn_graph of
        None \<Rightarrow> Inl (UnboundLocalError ''latest_snn_graph'')
      | Some snn_graph \<Rightarrow>
          get_snn_results alipour_counter_marks input_graph m_val redundant snn_graph)"

fun mdsa_snn_results_loop ::
  "(string \<rightharpoonup> int) \<Rightarrow> ('i, 'q) digraph \<Rightarrow> int \<Rightarrow> (string \<times> ('i, 'q, 'p) stage_2_value) list
     \<Rightarrow> 'p snn_graph option \<Rightarrow> (string \<rightharpoonup> (string \<rightharpoonup> pyval))
     \<Rightarrow> error + (string \<rightharpoonup> (string \<rightharpoonup> pyval))" where
  "mdsa_snn_results_loop marks input_graph m_val [] latest results = Inr results"
| "mdsa_snn_results_loop marks input_graph m_val ((graph_name, graph) # rest) latest results =
     (case (case graph of
              Graphs gs \<Rightarrow>
                (if gs = [] then Inl (IndexError ''list index out of range'')
                 else Inr (Some (last gs)))
            | Graph G \<Rightarrow> Inr latest) of
        Inl e \<Rightarrow> Inl e
      | Inr latest_snn_graph \<Rightarrow>
          (if graph_name = ''snn_algo_graph''
           then (case read_latest_snn_graph marks input_graph m_val False latest_snn_graph of
                   Inl e \<Rightarrow> Inl e
                 | Inr r \<Rightarrow>
                     mdsa_snn_results_loop marks input_graph m_val rest latest_snn_graph
                       (results(''snn_algo_result'' \<mapsto> r)))
           else if graph_name = ''adapted_snn_graph''
           then (case read_latest_snn_graph marks input_graph m_val True latest_snn_graph of
                   Inl e \<Rightarrow> Inl e
                 | Inr r \<Rightarrow>
                     mdsa_snn_results_loop marks input_graph m_val rest latest_snn_graph
                       (results(''adapted_snn_algo_result'' \<mapsto> r)))
           else if graph_name = ''rad_snn_algo_graph''
           then (case read_latest_snn_graph marks input_graph m_val False latest_snn_graph of
                   Inl e \<Rightarrow> Inl e
                 | Inr r \<Rightarrow>
                     mdsa_snn_results_loop marks input_graph m_val rest latest_snn_graph
                       (results(''rad_snn_algo_graph'' \<mapsto> r)))
           else if graph_name = ''rad_adapted_snn_graph''
           then (case read_latest_snn_graph marks input_graph m_val True latest_snn_graph of
                   Inl e \<Rightarrow> Inl e
                 | Inr r \<Rightarrow>
                     mdsa_snn_results_loop marks input_graph m_val rest latest_snn_graph
                       (results(''rad_adapted_snn_graph'' \<mapsto> r)))
           else mdsa_snn_results_loop marks input_graph m_val rest latest_snn_graph results))"

text \<open>
  Before the loop: \<open>stage_2_graphs["input_graph"]\<close> must exist, must be a graph (a list has
  no \<open>graph\<close> attribute) and must carry \<open>alg_props\<close>.
\<close>

definition get_mdsa_snn_results ::
  "(('i, 'q) digraph \<Rightarrow> int \<Rightarrow> 'q \<Rightarrow> error + (string \<rightharpoonup> int)) \<Rightarrow> int
     \<Rightarrow> (string \<times> ('i, 'q, 'p) stage_2_value) list
     \<Rightarrow> error + (string \<rightharpoonup> (string \<rightharpoonup> pyval))" where
  "get_mdsa_snn_results get_alipour_nodes m_val stage_2_graphs =
     (case map_of stage_2_graphs ''input_graph'' of
        None \<Rightarrow> Inl (KeyError ''input_graph'')
      | Some (Graphs gs) \<Rightarrow> Inl (AttributeError ''graph'')
      | Some (Graph input_graph) \<Rightarrow>
          (case graph_attrs input_graph ''alg_props'' of
             None \<Rightarrow> Inl (KeyError ''alg_props'')
           | Some alg_props \<Rightarrow>
               (case get_alipour_nodes input_graph m_val alg_props of
                  Inl e \<Rightarrow> Inl e
                | Inr alipour_counter_marks \<Rightarrow>
                    mdsa_snn_results_loop alipour_counter_marks input_graph m_val
                      stage_2_graphs None Map.empty)))"

section \<open>Stage 1: compiling and adapting the graph (stage\_1\_get\_input\_graphs.py)\<close>

text \<open>
  The run configuration, with the entries these functions read. \<open>algorithm\<close> and
  \<open>adaptation\<close> are dictionaries, kept as their items in iteration order; an algorithm name
  maps to its settings dictionary, an adaptation name (\<open>None\<close> or a string) to its setting.
\<close>

record run_config =
  algorithm :: "(pyval \<times> (string \<rightharpoonup> pyval)) list"
  adaptation :: "(pyval \<times> pyval) list"
  seed :: pyval

subsection \<open>get\_snn\_algo\_graph\<close>

text \<open>
  \<open>specify_mdsa_network_properties\<close> (the MDSA compiler) is not among the sources: it is the
  parameter \<open>specify\<close>, called with the input graph, \<open>m_val\<close> and the seed. The loop variable
  \<open>snn_algo_graph\<close> is unbound until an iteration assigns it.
\<close>

fun snn_algo_graph_loop ::
  "(('i, 'q) digraph \<Rightarrow> pyval \<Rightarrow> pyval \<Rightarrow> error + 'g) \<Rightarrow> ('i, 'q) digraph \<Rightarrow> run_config
     \<Rightarrow> (pyval \<times> (string \<rightharpoonup> pyval)) list \<Rightarrow> 'g option \<Rightarrow> error + 'g option" where
  "snn_algo_graph_loop specify input_graph rc [] snn_algo_graph = Inr snn_algo_graph"
| "snn_algo_graph_loop specify input_graph rc ((algo_name, algo_settings) # rest) snn_algo_graph =
     (if algo_name = PStr ''MDSA''
      then (case algo_settings ''m_val'' of
              None \<Rightarrow> Inl (KeyError ''m_val'')
            | Some m_val \<Rightarrow>
                (if isinstance_int m_val
                 then (case specify input_graph m_val (seed rc) of
                         Inl e \<Rightarrow> Inl e
                       | Inr G \<Rightarrow> snn_algo_graph_loop specify input_graph rc rest (Some G))
                 else Inl (Exception ''Error, m_val setting is not of type int.'')))
      else Inl (Exception ''Error, algo_name:{algo_name} is not (yet) supported.''))"

definition get_snn_algo_graph ::
  "(('i, 'q) digraph \<Rightarrow> pyval \<Rightarrow> pyval \<Rightarrow> error + 'g) \<Rightarrow> ('i, 'q) digraph \<Rightarrow> run_config
     \<Rightarrow> error + 'g" where
  "get_snn_algo_graph specify input_graph rc =
     (case snn_algo_graph_loop specify input_graph rc (algorithm rc) None of
        Inl e \<Rightarrow> Inl e
      | Inr None \<Rightarrow> Inl (UnboundLocalError ''snn_algo_graph'')
      | Inr (Some G) \<Rightarrow> Inr G)"

subsection \<open>get\_redundant\_graph\<close>

text \<open>
  The graph objects live in a heap, a reference is an index into it, so that a deep copy
  and the in-place adaptation of the copy can be told apart from a change of the caller's
  graph. \<open>copy.deepcopy\<close> allocates a new object with the same value.
  \<open>implement_adaptation_mechanism\<close> is not among the sources: it is the parameter
  \<open>implement\<close>, which gives the new value of the one graph object it is handed, or raises.
  The functions return the heap they leave behind with their result.
\<close>

type_synonym 'g heap = "'g list"

definition deepcopy :: "'g heap \<Rightarrow> nat \<Rightarrow> 'g heap \<times> nat" where
  "deepcopy h r = (h @ [h ! r], length h)"

definition get_redundant_graph ::
  "('g \<Rightarrow> error + 'g) \<Rightarrow> 'g heap \<Rightarrow> nat \<Rightarrow> real \<Rightarrow> 'g heap \<times> (error + nat)" where
  "get_redundant_graph implement h snn_algo_graph red_lev =
     (if red_lev = 0
      then (h, Inl (Exception ''Redundancy level 0 not supported if adaptation is required.''))
      else if red_lev = 1
      then (case deepcopy h snn_algo_graph of
              (h1, adaptation_graph) \<Rightarrow>
                (case implement (h1 ! adaptation_graph) of
                   Inl e \<Rightarrow> (h1, Inl e)
                 | Inr G \<Rightarrow> (h1[adaptation_graph := G], Inr adaptation_graph)))
      else (h, Inl (Exception ''Error, redundancy level above 1 is currently not supported.'')))"

subsection \<open>get\_adapted\_graph\<close>

text \<open>
  Every path through the body of the \<open>for\<close> loop returns or raises, so only the first item
  of the adaptation dictionary is looked at; with no item the function falls off its end
  and returns \<open>None\<close>.
\<close>

fun get_adapted_graph_loop ::
  "('g \<Rightarrow> error + 'g) \<Rightarrow> 'g heap \<Rightarrow> nat \<Rightarrow> (pyval \<times> pyval) list
     \<Rightarrow> 'g heap \<times> (error + nat option)" where
  "get_adapted_graph_loop implement h snn_algo_graph [] = (h, Inr None)"
| "get_adapted_graph_loop implement h snn_algo_graph ((adapatation_name, adaptation_setting) # rest) =
     (if adapatation_name = PNone
      then (h, Inl (Exception ''Error, if no adaptation is selected, this method should not be reached.''))
      else if adapatation_name = PStr ''redundancy''
      then (case adaptation_setting of
              PFloat red_lev \<Rightarrow>
                (case get_redundant_graph implement h snn_algo_graph red_lev of
                   (h', Inl e) \<Rightarrow> (h', Inl e)
                 | (h', Inr adaptation_graph) \<Rightarrow> (h', Inr (Some adaptation_graph)))
            | _ \<Rightarrow> (h, Inl (Exception ''Error, adaptation_setting=,which is not an int.'')))
      else (h, Inl (Exception ''Error, adapatation_name: is not supported.'')))"

definition get_adapted_graph ::
  "('g \<Rightarrow> error + 'g) \<Rightarrow> 'g heap \<Rightarrow> nat \<Rightarrow> run_config \<Rightarrow> 'g heap \<times> (error + nat option)" where
  "get_adapted_graph implement h snn_algo_graph rc =
     get_adapted_graph_loop implement h snn_algo_graph (adaptation rc)"

section \<open>Stage 2: simulation (stage2\_sim.py)\<close>

text \<open>
  The functions that \<open>stage2_sim.py\<close> imports (the checks of \<open>verify_graph_is_snn\<close>, the
  engine of \<open>run_on_networkx\<close> and the helpers of \<open>helper\<close>) are not among the sources. They
  are the fields of a record that the functions below take as a parameter: a check
  returns or raises, a function that changes the graph gives its new value or raises.
\<close>

record 'n sim_helpers =
  assert_synaptic_edgeweight_type_is_correct ::
    "('n, pyval) digraph \<Rightarrow> 'n \<times> 'n \<Rightarrow> error + unit"
  assert_no_duplicate_edges_exist :: "('n, pyval) digraph \<Rightarrow> error + unit"
  old_graph_to_new_graph_properties :: "('n, pyval) digraph \<Rightarrow> error + ('n, pyval) digraph"
  verify_networkx_snn_spec :: "('n, pyval) digraph \<Rightarrow> nat \<Rightarrow> error + unit"
  add_nx_neurons_to_networkx_graph ::
    "('n, pyval) digraph \<Rightarrow> nat \<Rightarrow> error + ('n, pyval) digraph"
  get_sim_duration :: "('n, pyval) digraph \<Rightarrow> run_config \<Rightarrow> error + int"
  run_snn_on_networkx :: "('n, pyval) digraph \<Rightarrow> int \<Rightarrow> error + ('n, pyval) digraph"
  add_stage_completion_to_graph ::
    "('n, pyval) digraph \<Rightarrow> int \<Rightarrow> error + ('n, pyval) digraph"

subsection \<open>convert\_graph\_snn\_to\_nx\_snn\<close>

fun assert_edges_loop ::
  "'n sim_helpers \<Rightarrow> ('n, pyval) digraph \<Rightarrow> ('n \<times> 'n) list \<Rightarrow> error + unit" where
  "assert_edges_loop H G [] = Inr ()"
| "assert_edges_loop H G (edge # rest) =
     (case assert_synaptic_edgeweight_type_is_correct H G edge of
        Inl e \<Rightarrow> Inl e
      | Inr _ \<Rightarrow> assert_edges_loop H G rest)"

definition convert_graph_snn_to_nx_snn ::
  "'n sim_helpers \<Rightarrow> ('n, pyval) digraph \<Rightarrow> error + ('n, pyval) digraph" where
  "convert_graph_snn_to_nx_snn H G =
     (case assert_edges_loop H G (map fst (edges G)) of
        Inl e \<Rightarrow> Inl e
      | Inr _ \<Rightarrow>
     (case assert_no_duplicate_edges_exist H G of
        Inl e \<Rightarrow> Inl e
      | Inr _ \<Rightarrow>
     (case old_graph_to_new_graph_properties H G of
        Inl e \<Rightarrow> Inl e
      | Inr G1 \<Rightarrow>
     (case verify_networkx_snn_spec H G1 0 of
        Inl e \<Rightarrow> Inl e
      | Inr _ \<Rightarrow> add_nx_neurons_to_networkx_graph H G1 0))))"

subsection \<open>sim\_graphs\<close>

text \<open>
  The calls of the simulation engine are recorded in a log, in the order they are made:
  the name under which the graph is stored, the graph handed to the engine and the
  duration. The functions return the log with their result, so that the calls made before
  an exception are not lost.
\<close>

type_synonym 'n engine_log = "(string \<times> ('n, pyval) digraph \<times> int) list"

definition sim_graph ::
  "'n sim_helpers \<Rightarrow> run_config \<Rightarrow> string \<Rightarrow> ('n, pyval) digraph \<Rightarrow> 'n engine_log
     \<Rightarrow> 'n engine_log \<times> (error + ('n, pyval) digraph)" where
  "sim_graph H rc graph_name snn_graph calls =
     (if graph_name \<noteq> ''input_graph''
      then
        (case convert_graph_snn_to_nx_snn H snn_graph of
           Inl e \<Rightarrow> (calls, Inl e)
         | Inr G1 \<Rightarrow>
        (case get_sim_duration H G1 rc of
           Inl e \<Rightarrow> (calls, Inl e)
         | Inr d \<Rightarrow>
        (case get_sim_duration H
                (G1\<lparr>graph_attrs := (graph_attrs G1)(''sim_duration'' \<mapsto> PInt d)\<rparr>) rc of
           Inl e \<Rightarrow> (calls, Inl e)
         | Inr d' \<Rightarrow>
             (calls @ [(graph_name,
                      G1\<lparr>graph_attrs := (graph_attrs G1)(''sim_duration'' \<mapsto> PInt d)\<rparr>, d')],
              case run_snn_on_networkx H
                     (G1\<lparr>graph_attrs := (graph_attrs G1)(''sim_duration'' \<mapsto> PInt d)\<rparr>) d' of
                Inl e \<Rightarrow> Inl e
              | Inr G2 \<Rightarrow> add_stage_completion_to_graph H G2 2))))
      else (calls, add_stage_completion_to_graph H snn_graph 2))"

fun sim_graphs_loop ::
  "'n sim_helpers \<Rightarrow> run_config \<Rightarrow> (string \<times> ('n, pyval) digraph) list \<Rightarrow> 'n engine_log
     \<Rightarrow> 'n engine_log \<times> (error + (string \<times> ('n, pyval) digraph) list)" where
  "sim_graphs_loop H rc [] calls = (calls, Inr [])"
| "sim_graphs_loop H rc ((graph_name, snn_graph) # rest) calls =
     (case sim_graph H rc graph_name snn_graph calls of
        (calls1, Inl e) \<Rightarrow> (calls1, Inl e)
      | (calls1, Inr G) \<Rightarrow>
          (case sim_graphs_loop H rc rest calls1 of
             (calls2, Inl e) \<Rightarrow> (calls2, Inl e)
           | (calls2, Inr Gs) \<Rightarrow> (calls2, Inr ((graph_name, G) # Gs))))"

definition sim_graphs ::
  "'n sim_helpers \<Rightarrow> (string \<times> ('n, pyval) digraph) list \<Rightarrow> run_config
     \<Rightarrow> 'n engine_log \<times> (error + (string \<times> ('n, pyval) digraph) list)" where
  "sim_graphs H stage_1_graphs rc = sim_graphs_loop H rc stage_1_graphs []"

subsection \<open>The example graph of get\_graph.py and a verifier after the specification\<close>

definition get_networkx_graph_of_2_neurons :: "(nat, pyval) digraph" where
  "get_networkx_graph_of_2_neurons =
     \<lparr>nodes =
        [(0, [''color'' \<mapsto> PStr ''w'', ''bias'' \<mapsto> PFloat 1, ''du'' \<mapsto> PFloat (1 / 2),
              ''dv'' \<mapsto> PFloat (1 / 2), ''vth'' \<mapsto> PFloat 2]),
         (1, [''color'' \<mapsto> PStr ''w'', ''bias'' \<mapsto> PFloat 2, ''du'' \<mapsto> PFloat (5 / 2),
              ''dv'' \<mapsto> PFloat 3, ''vth'' \<mapsto> PFloat 10])],
      edges = [((0, 1), Map.empty)],
      graph_attrs = Map.empty\<rparr>"

text \<open>
  Modelled from the spec: \<open>verify_networkx_snn_spec\<close> of the module \<open>verify_graph_is_snn\<close>,
  which is missing from the sources. The specification has it check that every node
  carries the full required attribute set with correct types; the attributes taken here
  are the static neuron parameters \<open>bias\<close>, \<open>du\<close>, \<open>dv\<close> and \<open>vth\<close>, each a number.
\<close>

definition is_number :: "pyval option \<Rightarrow> bool" where
  "is_number v = (case v of Some (PFloat r) \<Rightarrow> True | Some (PInt i) \<Rightarrow> True | _ \<Rightarrow> False)"

definition spec_verify_networkx_snn_spec :: "('n, 'p) digraph \<Rightarrow> nat \<Rightarrow> error + unit" where
  "spec_verify_networkx_snn_spec G t =
     (if list_all (\<lambda>(nodename, node).
           list_all (\<lambda>key. is_number (node key)) [''bias'', ''du'', ''dv'', ''vth'']) (nodes G)
      then Inr ()
      else Inl (Exception ''neuron property missing or of the wrong type''))"

section \<open>Example graphs\<close>

text \<open>Small graphs on which the theorems below are evaluated.\<close>

definition unmarked_snn_graph :: "unit snn_graph" where
  "unmarked_snn_graph =
     \<lparr>nodes = [(''counter_0_1'', [''nx_LIF'' \<mapsto> PLif \<lparr>u = 2\<rparr>]),
               (''counter_1_1'', [''nx_LIF'' \<mapsto> PLif \<lparr>u = 5\<rparr>])],
      edges = [], graph_attrs = Map.empty\<rparr>"

definition partly_marked_snn_graph :: "unit snn_graph" where
  "partly_marked_snn_graph =
     \<lparr>nodes = [(''counter_0_1'', [''rad_death'' \<mapsto> PBool False, ''nx_LIF'' \<mapsto> PLif \<lparr>u = 2\<rparr>]),
               (''counter_1_1'', [''nx_LIF'' \<mapsto> PLif \<lparr>u = 5\<rparr>])],
      edges = [], graph_attrs = Map.empty\<rparr>"

text \<open>Three input nodes, \<open>m_val = 3\<close>: the primary counter of node 2 is dead, its redundant
  twin holds the current 7.\<close>

definition three_node_input_graph :: "(nat, unit) digraph" where
  "three_node_input_graph =
     \<lparr>nodes = [(0, Map.empty), (1, Map.empty), (2, Map.empty)],
      edges = [((0, 2), Map.empty), ((1, 2), Map.empty)],
      graph_attrs = Map.empty\<rparr>"

definition irradiated_adapted_graph :: "unit snn_graph" where
  "irradiated_adapted_graph =
     \<lparr>nodes =
        [(''counter_0_3'', [''rad_death'' \<mapsto> PBool False, ''nx_LIF'' \<mapsto> PLif \<lparr>u = 1\<rparr>]),
         (''red_counter_0_3'', [''rad_death'' \<mapsto> PBool False, ''nx_LIF'' \<mapsto> PLif \<lparr>u = 1\<rparr>]),
         (''counter_1_3'', [''rad_death'' \<mapsto> PBool False, ''nx_LIF'' \<mapsto> PLif \<lparr>u = 4\<rparr>]),
         (''red_counter_1_3'', [''rad_death'' \<mapsto> PBool False, ''nx_LIF'' \<mapsto> PLif \<lparr>u = 4\<rparr>]),
         (''counter_2_3'', [''rad_death'' \<mapsto> PBool True, ''nx_LIF'' \<mapsto> PLif \<lparr>u = 0\<rparr>]),
         (''red_counter_2_3'', [''rad_death'' \<mapsto> PBool False, ''nx_LIF'' \<mapsto> PLif \<lparr>u = 7\<rparr>])],
      edges = [], graph_attrs = Map.empty\<rparr>"

definition two_node_input_graph :: "(nat, unit) digraph" where
  "two_node_input_graph =
     \<lparr>nodes = [(0, Map.empty), (1, Map.empty)],
      edges = [((0, 1), Map.empty)],
      graph_attrs = Map.empty\<rparr>"

text \<open>A run configuration asking for MDSA with \<open>m_val = 1\<close> and redundancy 1.0.\<close>

definition example_run_config :: run_config where
  "example_run_config =
     \<lparr>algorithm = [(PStr ''MDSA'', [''m_val'' \<mapsto> PInt 1])],
      adaptation = [(PStr ''redundancy'', PFloat 1)],
      seed = PInt 42\<rparr>"

text \<open>The two-neuron graph with the \<open>vth\<close> attribute of neuron 1 left out.\<close>

definition graph_missing_vth :: "(nat, pyval) digraph" where
  "graph_missing_vth =
     \<lparr>nodes =
        [(0, [''color'' \<mapsto> PStr ''w'', ''bias'' \<mapsto> PFloat 1, ''du'' \<mapsto> PFloat (1 / 2),
              ''dv'' \<mapsto> PFloat (1 / 2), ''vth'' \<mapsto> PFloat 2]),
         (1, [''color'' \<mapsto> PStr ''w'', ''bias'' \<mapsto> PFloat 2, ''du'' \<mapsto> PFloat (5 / 2),
              ''dv'' \<mapsto> PFloat 3])],
      edges = [((0, 1), Map.empty)],
      graph_attrs = Map.empty\<rparr>"

text \<open>
  Stand-ins for the functions \<open>stage2_sim.py\<close> imports: the verifier after the
  specification, an engine that leaves the graph as it is, a duration of two timesteps.
\<close>

definition example_sim_helpers :: "nat sim_helpers" where
  "example_sim_helpers =
     \<lparr>assert_synaptic_edgeweight_type_is_correct = (\<lambda>G edge. Inr ()),
      assert_no_duplicate_edges_exist = (\<lambda>G. Inr ()),
      old_graph_to_new_graph_properties = (\<lambda>G. Inr G),
      verify_networkx_snn_spec = spec_verify_networkx_snn_spec,
      add_nx_neurons_to_networkx_graph = (\<lambda>G t. Inr G),
      get_sim_duration = (\<lambda>G rc. Inr 2),
      run_snn_on_networkx = (\<lambda>G d. Inr G),
      add_stage_completion_to_graph = (\<lambda>G stage. Inr G)\<rparr>"

text \<open>An adapted graph without faults: no node carries \<open>rad_death\<close>, and every redundant
  twin holds a current other than its primary's.\<close>

definition fault_free_adapted_graph :: "unit snn_graph" where
  "fault_free_adapted_graph =
     \<lparr>nodes = [(''counter_0_1'', [''nx_LIF'' \<mapsto> PLif \<lparr>u = 2\<rparr>]),
               (''red_counter_0_1'', [''nx_LIF'' \<mapsto> PLif \<lparr>u = 9\<rparr>]),
               (''counter_1_1'', [''nx_LIF'' \<mapsto> PLif \<lparr>u = 5\<rparr>]),
               (''red_counter_1_1'', [''nx_LIF'' \<mapsto> PLif \<lparr>u = 8\<rparr>])],
      edges = [], graph_attrs = Map.empty\<rparr>"

section \<open>Properties of graph\_has\_dead\_neurons\<close>


lemma rad_death_found_loop_iff:
  "rad_death_found_loop xs b = (b \<or> (\<exists>(n, a) \<in> set xs. a ''rad_death'' \<noteq> None))"
proof (induction xs arbitrary: b)
  case Nil
  show ?case by simp
next
  case (Cons x xs)
  obtain n a where x: "x = (n, a)" by (cases x)
  show ?case
    by (cases "a ''rad_death'' = None") (auto simp: x Cons.IH)
qed

lemma rad_death_everywhere_loop_Inr:
  "(rad_death_everywhere_loop xs = Inr ()) = (\<forall>(n, a) \<in> set xs. a ''rad_death'' \<noteq> None)"
proof (induction xs)
  case Nil
  show ?case by simp
next
  case (Cons x xs)
  obtain n a where x: "x = (n, a)" by (cases x)
  show ?case
    by (cases "a ''rad_death'' = None") (auto simp: x Cons.IH)
qed

lemma rad_death_everywhere_loop_Inl:
  "(\<exists>e. rad_death_everywhere_loop xs = Inl e) = (\<exists>(n, a) \<in> set xs. a ''rad_death'' = None)"
proof (induction xs)
  case Nil
  show ?case by simp
next
  case (Cons x xs)
  obtain n a where x: "x = (n, a)" by (cases x)
  show ?case
    by (cases "a ''rad_death'' = None") (auto simp: x Cons.IH)
qed

lemma graph_has_dead_neurons_absent:
  "\<forall>(n, a) \<in> set (nodes g). a ''rad_death'' = None \<Longrightarrow> graph_has_dead_neurons g = Inr False"
  by (auto simp: graph_has_dead_neurons_def rad_death_found_loop_iff)

lemma graph_has_dead_neurons_present:
  assumes "nodes g \<noteq> []" and "\<forall>(n, a) \<in> set (nodes g). a ''rad_death'' \<noteq> None"
  shows "graph_has_dead_neurons g = Inr True"
proof -
  from assms(1) obtain n a where "(n, a) \<in> set (nodes g)"
    by (cases "nodes g") auto
  with assms(2) have "rad_death_found_loop (nodes g) False"
    by (auto simp: rad_death_found_loop_iff)
  moreover from assms(2) have "rad_death_everywhere_loop (nodes g) = Inr ()"
    by (simp add: rad_death_everywhere_loop_Inr)
  ultimately show ?thesis
    by (simp add: graph_has_dead_neurons_def)
qed

lemma graph_has_dead_neurons_raises:
  "(\<exists>e. graph_has_dead_neurons g = Inl e) =
     ((\<exists>(n, a) \<in> set (nodes g). a ''rad_death'' \<noteq> None) \<and>
      (\<exists>(n, a) \<in> set (nodes g). a ''rad_death'' = None))"
proof (cases "rad_death_found_loop (nodes g) False")
  case True
  then have found: "\<exists>(n, a) \<in> set (nodes g). a ''rad_death'' \<noteq> None"
    by (simp add: rad_death_found_loop_iff)
  show ?thesis
  proof (cases "rad_death_everywhere_loop (nodes g)")
    case (Inl e)
    then have "\<exists>(n, a) \<in> set (nodes g). a ''rad_death'' = None"
      using rad_death_everywhere_loop_Inl [of "nodes g"] by blast
    with found True Inl show ?thesis
      by (simp add: graph_has_dead_neurons_def)
  next
    case (Inr x)
    then have "\<not> (\<exists>(n, a) \<in> set (nodes g). a ''rad_death'' = None)"
      using rad_death_everywhere_loop_Inl [of "nodes g"] by auto
    with True Inr show ?thesis
      by (simp add: graph_has_dead_neurons_def)
  qed
next
  case False
  then have "\<not> (\<exists>(n, a) \<in> set (nodes g). a ''rad_death'' \<noteq> None)"
    by (simp add: rad_death_found_loop_iff)
  with False show ?thesis
    by (simp add: graph_has_dead_neurons_def)
qed

text \<open>
  Claim C2. \<open>graph_has_dead_neurons\<close> raises if and only if the \<open>rad_death\<close> key is in the
  attribute dictionary of at least one node and missing from that of at least one other
  node. On a graph with nodes it returns \<open>True\<close> when the key is on every node, and it
  returns \<open>False\<close> when the key is on no node.
\<close>

theorem graph_has_dead_neurons_spec:
  "((\<exists>e. graph_has_dead_neurons g = Inl e) =
      ((\<exists>(n, a) \<in> set (nodes g). a ''rad_death'' \<noteq> None) \<and>
       (\<exists>(n, a) \<in> set (nodes g). a ''rad_death'' = None))) \<and>
   (nodes g \<noteq> [] \<and> (\<forall>(n, a) \<in> set (nodes g). a ''rad_death'' \<noteq> None)
      \<longrightarrow> graph_has_dead_neurons g = Inr True) \<and>
   ((\<forall>(n, a) \<in> set (nodes g). a ''rad_death'' = None)
      \<longrightarrow> graph_has_dead_neurons g = Inr False)"
  using graph_has_dead_neurons_raises [of g] graph_has_dead_neurons_present [of g]
    graph_has_dead_neurons_absent [of g] by blast

theorem graph_has_dead_neurons_spec_witness:
  "(\<exists>e. graph_has_dead_neurons partly_marked_snn_graph = Inl e) \<and>
   graph_has_dead_neurons irradiated_adapted_graph = Inr True \<and>
   graph_has_dead_neurons unmarked_snn_graph = Inr False"
proof -
  have "\<exists>e. graph_has_dead_neurons partly_marked_snn_graph = Inl e"
    using graph_has_dead_neurons_spec [of partly_marked_snn_graph]
    by (simp add: partly_marked_snn_graph_def)
  moreover have "graph_has_dead_neurons irradiated_adapted_graph = Inr True"
    using graph_has_dead_neurons_spec [of irradiated_adapted_graph]
    by (simp add: irradiated_adapted_graph_def)
  moreover have "graph_has_dead_neurons unmarked_snn_graph = Inr False"
    using graph_has_dead_neurons_spec [of unmarked_snn_graph]
    by (simp add: unmarked_snn_graph_def)
  ultimately show ?thesis by blast
qed

section \<open>Properties of the readout\<close>

subsection \<open>The loops of the readout\<close>

lemma counter_neuron_died_absent:
  "\<forall>(n, a) \<in> set (nodes g). a ''rad_death'' = None \<Longrightarrow>
     counter_neuron_died g name = Inr (PBool False)"
  by (simp add: counter_neuron_died_def graph_has_dead_neurons_absent)

lemma count_loops_agree:
  assumes "\<forall>(n, a) \<in> set (nodes g). a ''rad_death'' = None"
  shows "count_with_redundancy_loop g m is acc = count_without_redundancy_loop g m is acc"
proof (induction "is" arbitrary: acc)
  case Nil
  show ?case by simp
next
  case (Cons i rest)
  show ?case
  proof (cases "read_u g (counter_name i m)")
    case (Inl e)
    then show ?thesis
      by (simp add: counter_neuron_died_absent [OF assms])
  next
    case (Inr c)
    then show ?thesis
      by (simp add: counter_neuron_died_absent [OF assms] Cons.IH fun_upd_def)
  qed
qed

lemma read_u_Inr:
  "read_u G name = Inr c \<Longrightarrow>
     \<exists>node l. map_of (nodes G) name = Some node \<and> node ''nx_LIF'' = Some (PLif l) \<and> c = u l"
  by (auto simp: read_u_def split: option.splits pyval.splits)

lemma with_loop_frame:
  "count_with_redundancy_loop g m is acc = Inr counts \<Longrightarrow>
     k \<notin> (\<lambda>i. counter_name i m) ` set is \<Longrightarrow> counts k = acc k"
proof (induction "is" arbitrary: acc)
  case Nil
  then show ?case by simp
next
  case (Cons i rest)
  from Cons.prems(1) obtain c where
    step: "count_with_redundancy_loop g m rest (acc(counter_name i m \<mapsto> c)) = Inr counts"
    by (auto split: sum.splits)
  from Cons.prems(2) have "k \<noteq> counter_name i m" and "k \<notin> (\<lambda>i. counter_name i m) ` set rest"
    by auto
  with Cons.IH [OF step] show ?case by simp
qed

lemma with_loop_reads:
  "count_with_redundancy_loop g m is acc = Inr counts \<Longrightarrow> i \<in> set is \<Longrightarrow>
     \<exists>died c. counter_neuron_died g (counter_name i m) = Inr died \<and>
       read_u g ((if truthy died then ''red_'' else '''') @ counter_name i m) = Inr c \<and>
       counts (counter_name i m) = Some c"
proof (induction "is" arbitrary: acc i)
  case Nil
  then show ?case by simp
next
  case (Cons j rest)
  from Cons.prems(1) obtain died c where
    died: "counter_neuron_died g (counter_name j m) = Inr died" and
    c: "read_u g ((if truthy died then ''red_'' else '''') @ counter_name j m) = Inr c" and
    step: "count_with_redundancy_loop g m rest (acc(counter_name j m \<mapsto> c)) = Inr counts"
    by (auto split: sum.splits)
  show ?case
  proof (cases "counter_name i m \<in> (\<lambda>i. counter_name i m) ` set rest")
    case True
    then obtain i' where i': "i' \<in> set rest" and "counter_name i' m = counter_name i m"
      by auto
    with Cons.IH [OF step i'] show ?thesis by simp
  next
    case False
    with Cons.prems(2) have "i = j" by auto
    from with_loop_frame [OF step False] have "counts (counter_name i m) = Some c"
      by (simp add: \<open>i = j\<close>)
    with died c \<open>i = j\<close> show ?thesis by simp
  qed
qed

lemma with_loop_returns:
  "\<forall>i \<in> set is. \<exists>died c. counter_neuron_died g (counter_name i m) = Inr died \<and>
       read_u g ((if truthy died then ''red_'' else '''') @ counter_name i m) = Inr c \<Longrightarrow>
     \<exists>counts. count_with_redundancy_loop g m is acc = Inr counts"
proof (induction "is" arbitrary: acc)
  case Nil
  show ?case by simp
next
  case (Cons j rest)
  from Cons.prems obtain died c where
    "counter_neuron_died g (counter_name j m) = Inr died"
    "read_u g ((if truthy died then ''red_'' else '''') @ counter_name j m) = Inr c"
    by auto
  moreover from Cons.prems have "\<exists>counts. count_with_redundancy_loop g m rest
      (acc(counter_name j m \<mapsto> c)) = Inr counts"
    by (intro Cons.IH) auto
  ultimately show ?case by simp
qed

lemma counter_neuron_died_consistent:
  assumes cons: "(\<forall>(n, a) \<in> set (nodes g). a ''rad_death'' = None) \<or>
                 (\<forall>(n, a) \<in> set (nodes g). a ''rad_death'' \<noteq> None)"
    and node: "map_of (nodes g) name = Some node"
  shows "\<exists>died. counter_neuron_died g name = Inr died \<and>
           truthy died = (\<exists>v. node ''rad_death'' = Some v \<and> truthy v)"
proof -
  from node have mem: "(name, node) \<in> set (nodes g)"
    by (rule map_of_SomeD)
  from cons show ?thesis
  proof
    assume none: "\<forall>(n, a) \<in> set (nodes g). a ''rad_death'' = None"
    with mem have "node ''rad_death'' = None" by auto
    with counter_neuron_died_absent [OF none, of name] show ?thesis by simp
  next
    assume all: "\<forall>(n, a) \<in> set (nodes g). a ''rad_death'' \<noteq> None"
    from mem have "nodes g \<noteq> []" by auto
    with all have "graph_has_dead_neurons g = Inr True"
      by (simp add: graph_has_dead_neurons_present)
    moreover from all mem obtain v where "node ''rad_death'' = Some v" by auto
    ultimately show ?thesis using node
      by (simp add: counter_neuron_died_def)
  qed
qed

subsection \<open>Graphs without the rad\_death attribute\<close>

text \<open>
  Claim C10. In a graph in which no node carries the \<open>rad_death\<close> attribute,
  \<open>counter_neuron_died\<close> returns \<open>False\<close> for every neuron name, and the redundancy-aware
  readout does what the plain readout does. It returns when every primary counter neuron
  \<open>counter_{i}_{m_val}\<close> is in the graph with its LIF neuron, and whenever it returns, its
  entry for \<open>counter_{i}_{m_val}\<close> is the final current \<open>u\<close> of the LIF neuron stored in
  that primary node: a \<open>red_\<close> twin is never read.
\<close>

theorem fault_free_readout_reads_primaries:
  assumes "\<forall>(n, a) \<in> set (nodes g). a ''rad_death'' = None"
  shows "counter_neuron_died g name = Inr (PBool False) \<and>
         get_nx_LIF_count_with_redundancy input_graph g m_val =
           get_nx_LIF_count_without_redundancy input_graph g m_val \<and>
         ((\<forall>i < length (nodes input_graph). \<exists>node l.
              map_of (nodes g) (counter_name i m_val) = Some node \<and>
              node ''nx_LIF'' = Some (PLif l))
            \<longrightarrow> (\<exists>node_counts.
                  get_nx_LIF_count_with_redundancy input_graph g m_val = Inr node_counts)) \<and>
         (\<forall>node_counts.
            get_nx_LIF_count_with_redundancy input_graph g m_val = Inr node_counts
            \<longrightarrow> (\<forall>i < length (nodes input_graph). \<exists>node l.
                  map_of (nodes g) (counter_name i m_val) = Some node \<and>
                  node ''nx_LIF'' = Some (PLif l) \<and>
                  node_counts (counter_name i m_val) = Some (u l)))"
proof (intro conjI allI impI)
  show "counter_neuron_died g name = Inr (PBool False)"
    using assms by (rule counter_neuron_died_absent)
  show "get_nx_LIF_count_with_redundancy input_graph g m_val =
           get_nx_LIF_count_without_redundancy input_graph g m_val"
    using assms
    by (simp add: count_loops_agree get_nx_LIF_count_with_redundancy_def
        get_nx_LIF_count_without_redundancy_def)
next
  assume prim: "\<forall>i < length (nodes input_graph). \<exists>node l.
              map_of (nodes g) (counter_name i m_val) = Some node \<and>
              node ''nx_LIF'' = Some (PLif l)"
  have "\<forall>i \<in> set [0..<length (nodes input_graph)].
      \<exists>died c. counter_neuron_died g (counter_name i m_val) = Inr died \<and>
        read_u g ((if truthy died then ''red_'' else '''') @ counter_name i m_val) = Inr c"
  proof
    fix i assume "i \<in> set [0..<length (nodes input_graph)]"
    with prim obtain node l where "map_of (nodes g) (counter_name i m_val) = Some node"
      "node ''nx_LIF'' = Some (PLif l)" by auto
    then have "read_u g (counter_name i m_val) = Inr (u l)"
      by (simp add: read_u_def)
    with counter_neuron_died_absent [OF assms, of "counter_name i m_val"]
    show "\<exists>died c. counter_neuron_died g (counter_name i m_val) = Inr died \<and>
        read_u g ((if truthy died then ''red_'' else '''') @ counter_name i m_val) = Inr c"
      by simp
  qed
  from with_loop_returns [OF this]
  show "\<exists>node_counts.
          get_nx_LIF_count_with_redundancy input_graph g m_val = Inr node_counts"
    by (simp add: get_nx_LIF_count_with_redundancy_def)
next
  fix node_counts i
  assume ret: "get_nx_LIF_count_with_redundancy input_graph g m_val = Inr node_counts"
    and i: "i < length (nodes input_graph)"
  from ret have loop: "count_with_redundancy_loop g m_val [0..<length (nodes input_graph)]
      Map.empty = Inr node_counts"
    by (simp add: get_nx_LIF_count_with_redundancy_def)
  from i have "i \<in> set [0..<length (nodes input_graph)]" by simp
  from with_loop_reads [OF loop this] obtain died c where
    died: "counter_neuron_died g (counter_name i m_val) = Inr died" and
    c: "read_u g ((if truthy died then ''red_'' else '''') @ counter_name i m_val) = Inr c" and
    nc: "node_counts (counter_name i m_val) = Some c" by blast
  from died counter_neuron_died_absent [OF assms, of "counter_name i m_val"]
  have "died = PBool False" by simp
  with c have "read_u g (counter_name i m_val) = Inr c" by simp
  from read_u_Inr [OF this] nc
  show "\<exists>node l. map_of (nodes g) (counter_name i m_val) = Some node \<and>
                  node ''nx_LIF'' = Some (PLif l) \<and>
                  node_counts (counter_name i m_val) = Some (u l)"
    by auto
qed

text \<open>The twins are in the graph with other currents (9 and 8); the primaries (2 and 5)
  are what is read.\<close>

theorem fault_free_readout_reads_primaries_witness:
  "counter_neuron_died fault_free_adapted_graph ''counter_0_1'' = Inr (PBool False) \<and>
   get_nx_LIF_count_with_redundancy two_node_input_graph fault_free_adapted_graph 1 =
     Inr [''counter_0_1'' \<mapsto> 2, ''counter_1_1'' \<mapsto> 5]"
proof -
  have names: "counter_name 0 1 = ''counter_0_1''" "counter_name (Suc 0) 1 = ''counter_1_1''"
    by (simp_all add: counter_name_def str_int_def str_nat.simps digit_char_def)
  have upt: "[0..<length (nodes two_node_input_graph)] = [0, Suc 0]"
    by (simp add: two_node_input_graph_def upt_rec)
  have none: "\<forall>(n, a) \<in> set (nodes fault_free_adapted_graph). a ''rad_death'' = None"
    by (simp add: fault_free_adapted_graph_def)
  have plain: "get_nx_LIF_count_without_redundancy two_node_input_graph fault_free_adapted_graph 1
      = Inr [''counter_0_1'' \<mapsto> 2, ''counter_1_1'' \<mapsto> 5]"
    by (simp add: get_nx_LIF_count_without_redundancy_def upt names read_u_def
        fault_free_adapted_graph_def)
  from fault_free_readout_reads_primaries [OF none, of "''counter_0_1''" two_node_input_graph 1] plain
  show ?thesis by simp
qed

subsection \<open>The redundancy-aware readout\<close>

text \<open>
  Claim C1. Take an adapted graph whose \<open>rad_death\<close> marking is consistent (on no node or
  on every node) and which holds, for every node index \<open>i\<close> of the input graph, the counter
  neuron \<open>counter_{i}_{m_val}\<close> and its twin \<open>red_counter_{i}_{m_val}\<close>, each with its LIF
  neuron. Then the redundancy-aware readout returns a dictionary, and its entry for
  \<open>counter_{i}_{m_val}\<close> is the final current \<open>u\<close> of the LIF neuron stored in the twin
  when the primary's \<open>rad_death\<close> is true, and of the LIF neuron stored in the primary when
  the primary's \<open>rad_death\<close> is false or absent.
\<close>

theorem readout_with_redundancy_fallback:
  assumes cons: "(\<forall>(n, a) \<in> set (nodes g). a ''rad_death'' = None) \<or>
                 (\<forall>(n, a) \<in> set (nodes g). a ''rad_death'' \<noteq> None)"
    and prim: "\<forall>i < length (nodes input_graph). \<exists>node l.
                 map_of (nodes g) (counter_name i m_val) = Some node \<and>
                 node ''nx_LIF'' = Some (PLif l)"
    and red: "\<forall>i < length (nodes input_graph). \<exists>node l.
                 map_of (nodes g) (''red_'' @ counter_name i m_val) = Some node \<and>
                 node ''nx_LIF'' = Some (PLif l)"
  shows "\<exists>node_counts. get_nx_LIF_count_with_redundancy input_graph g m_val = Inr node_counts \<and>
           (\<forall>i < length (nodes input_graph). \<exists>node rnode l.
              map_of (nodes g) (counter_name i m_val) = Some node \<and>
              map_of (nodes g) (''red_'' @ counter_name i m_val) = Some rnode \<and>
              (if \<exists>v. node ''rad_death'' = Some v \<and> truthy v
               then rnode ''nx_LIF'' = Some (PLif l)
               else node ''nx_LIF'' = Some (PLif l)) \<and>
              node_counts (counter_name i m_val) = Some (u l))"
proof -
  let ?n = "length (nodes input_graph)"
  have each: "\<exists>died c. counter_neuron_died g (counter_name i m_val) = Inr died \<and>
       read_u g ((if truthy died then ''red_'' else '''') @ counter_name i m_val) = Inr c"
    if "i < ?n" for i
  proof -
    from prim that obtain node l where
      node: "map_of (nodes g) (counter_name i m_val) = Some node" and
      "node ''nx_LIF'' = Some (PLif l)" by blast
    then have p: "read_u g (counter_name i m_val) = Inr (u l)"
      by (simp add: read_u_def)
    from red that obtain rnode rl where
      "map_of (nodes g) (''red_'' @ counter_name i m_val) = Some rnode"
      "rnode ''nx_LIF'' = Some (PLif rl)" by blast
    then have r: "read_u g (''red_'' @ counter_name i m_val) = Inr (u rl)"
      by (simp add: read_u_def)
    from counter_neuron_died_consistent [OF cons node] obtain died where
      "counter_neuron_died g (counter_name i m_val) = Inr died" by blast
    with p r show ?thesis by (cases "truthy died") auto
  qed
  then have "\<forall>i \<in> set [0..<?n]. \<exists>died c. counter_neuron_died g (counter_name i m_val) = Inr died \<and>
       read_u g ((if truthy died then ''red_'' else '''') @ counter_name i m_val) = Inr c"
    by simp
  from with_loop_returns [OF this] obtain node_counts where
    nc: "count_with_redundancy_loop g m_val [0..<?n] Map.empty = Inr node_counts"
    by blast
  have "\<exists>node rnode l.
              map_of (nodes g) (counter_name i m_val) = Some node \<and>
              map_of (nodes g) (''red_'' @ counter_name i m_val) = Some rnode \<and>
              (if \<exists>v. node ''rad_death'' = Some v \<and> truthy v
               then rnode ''nx_LIF'' = Some (PLif l)
               else node ''nx_LIF'' = Some (PLif l)) \<and>
              node_counts (counter_name i m_val) = Some (u l)"
    if "i < ?n" for i
  proof -
    from prim that obtain node where
      node: "map_of (nodes g) (counter_name i m_val) = Some node" by blast
    from red that obtain rnode where
      rnode: "map_of (nodes g) (''red_'' @ counter_name i m_val) = Some rnode" by blast
    from counter_neuron_died_consistent [OF cons node] obtain died where
      died: "counter_neuron_died g (counter_name i m_val) = Inr died" and
      t: "truthy died = (\<exists>v. node ''rad_death'' = Some v \<and> truthy v)" by blast
    from that have "i \<in> set [0..<?n]" by simp
    from with_loop_reads [OF nc this] died obtain c where
      c: "read_u g ((if truthy died then ''red_'' else '''') @ counter_name i m_val) = Inr c" and
      cnt: "node_counts (counter_name i m_val) = Some c" by auto
    show ?thesis
    proof (cases "truthy died")
      case True
      with c have "read_u g (''red_'' @ counter_name i m_val) = Inr c" by simp
      from read_u_Inr [OF this] rnode obtain l where
        "rnode ''nx_LIF'' = Some (PLif l)" "c = u l" by auto
      with node rnode t True cnt show ?thesis by auto
    next
      case False
      with c have "read_u g (counter_name i m_val) = Inr c" by simp
      from read_u_Inr [OF this] node obtain l where
        "node ''nx_LIF'' = Some (PLif l)" "c = u l" by auto
      with node rnode t False cnt show ?thesis by auto
    qed
  qed
  with nc show ?thesis
    by (auto simp: get_nx_LIF_count_with_redundancy_def)
qed

lemma names3:
  "counter_name 0 3 = ''counter_0_3''" "counter_name 1 3 = ''counter_1_3''"
  "counter_name 2 3 = ''counter_2_3''" "counter_name (Suc 0) 3 = ''counter_1_3''"
  by (simp_all add: counter_name_def str_int_def str_nat.simps digit_char_def)

lemma less3: "(\<forall>i < (3::nat). P i) = (P 0 \<and> P 1 \<and> P 2)"
proof -
  have "i < 3 \<longleftrightarrow> i = 0 \<or> i = 1 \<or> i = 2" for i :: nat by arith
  then show ?thesis by auto
qed

text \<open>The example of the specification: \<open>counter_2_3\<close> is dead and holds 0,
  \<open>red_counter_2_3\<close> holds 7; \<open>counter_1_3\<close> is alive and holds 4.\<close>

theorem readout_fallback_counter_2_3:
  "\<exists>node_counts.
     get_nx_LIF_count_with_redundancy three_node_input_graph irradiated_adapted_graph 3
       = Inr node_counts \<and>
     node_counts ''counter_2_3'' = Some 7 \<and> node_counts ''counter_1_3'' = Some 4"
proof -
  have len: "length (nodes three_node_input_graph) = 3"
    by (simp add: three_node_input_graph_def)
  have cons: "(\<forall>(n, a) \<in> set (nodes irradiated_adapted_graph). a ''rad_death'' = None) \<or>
              (\<forall>(n, a) \<in> set (nodes irradiated_adapted_graph). a ''rad_death'' \<noteq> None)"
    by (simp add: irradiated_adapted_graph_def)
  have prim: "\<forall>i < length (nodes three_node_input_graph). \<exists>node l.
                 map_of (nodes irradiated_adapted_graph) (counter_name i 3) = Some node \<and>
                 node ''nx_LIF'' = Some (PLif l)"
    by (simp add: len less3 names3 irradiated_adapted_graph_def)
  have red: "\<forall>i < length (nodes three_node_input_graph). \<exists>node l.
                 map_of (nodes irradiated_adapted_graph) (''red_'' @ counter_name i 3) = Some node \<and>
                 node ''nx_LIF'' = Some (PLif l)"
    by (simp add: len less3 names3 irradiated_adapted_graph_def)
  from readout_with_redundancy_fallback [OF cons prim red] obtain node_counts where
    nc: "get_nx_LIF_count_with_redundancy three_node_input_graph irradiated_adapted_graph 3
           = Inr node_counts" and
    each: "\<forall>i < length (nodes three_node_input_graph). \<exists>node rnode l.
              map_of (nodes irradiated_adapted_graph) (counter_name i 3) = Some node \<and>
              map_of (nodes irradiated_adapted_graph) (''red_'' @ counter_name i 3) = Some rnode \<and>
              (if \<exists>v. node ''rad_death'' = Some v \<and> truthy v
               then rnode ''nx_LIF'' = Some (PLif l)
               else node ''nx_LIF'' = Some (PLif l)) \<and>
              node_counts (counter_name i 3) = Some (u l)"
    by blast
  from each have "node_counts ''counter_2_3'' = Some 7" "node_counts ''counter_1_3'' = Some 4"
    by (auto simp: len less3 names3 irradiated_adapted_graph_def)
  with nc show ?thesis by blast
qed

subsection \<open>The comparison with the reference counts\<close>

text \<open>
  Claim C4. Whenever the readout returns the SNN counts, \<open>get_snn_results\<close> returns them
  with one more entry, \<open>passed\<close>, which is \<open>True\<close> if and only if the reference dictionary
  has the same keys as the SNN one and the same count under each key, and \<open>False\<close>
  otherwise.
\<close>

theorem get_snn_results_passed:
  assumes "(if \<not> redundant
            then get_nx_LIF_count_without_redundancy input_graph snn_graph m_val
            else get_nx_LIF_count_with_redundancy input_graph snn_graph m_val)
           = Inr snn_counter_marks"
  shows "\<exists>result.
           get_snn_results alipour_counter_marks input_graph m_val redundant snn_graph
             = Inr result \<and>
           (result ''passed'' = Some (PBool True) \<or> result ''passed'' = Some (PBool False)) \<and>
           ((result ''passed'' = Some (PBool True)) =
              (dom alipour_counter_marks = dom snn_counter_marks \<and>
               (\<forall>k \<in> dom snn_counter_marks. alipour_counter_marks k = snn_counter_marks k))) \<and>
           (\<forall>k. k \<noteq> ''passed'' \<longrightarrow> result k = map_option PInt (snn_counter_marks k))"
proof -
  have eq: "(alipour_counter_marks = snn_counter_marks) =
      (dom alipour_counter_marks = dom snn_counter_marks \<and>
       (\<forall>k \<in> dom snn_counter_marks. alipour_counter_marks k = snn_counter_marks k))"
    (is "?l = ?r")
  proof
    assume ?l then show ?r by simp
  next
    assume r: ?r
    show ?l
    proof
      fix k
      show "alipour_counter_marks k = snn_counter_marks k"
      proof (cases "k \<in> dom snn_counter_marks")
        case True
        with r show ?thesis by blast
      next
        case False
        with r have "k \<notin> dom alipour_counter_marks" by simp
        with False show ?thesis by (simp add: domIff)
      qed
    qed
  qed
  show ?thesis
  proof (cases "alipour_counter_marks = snn_counter_marks")
    case True
    with assms eq show ?thesis
      by (simp add: get_snn_results_def)
  next
    case False
    with assms eq show ?thesis
      by (simp add: get_snn_results_def)
  qed
qed

theorem get_snn_results_passed_witness:
  "(\<exists>result.
      get_snn_results [''counter_0_1'' \<mapsto> 2, ''counter_1_1'' \<mapsto> 5]
        two_node_input_graph 1 False unmarked_snn_graph = Inr result \<and>
      result ''passed'' = Some (PBool True) \<and> result ''counter_1_1'' = Some (PInt 5)) \<and>
   (\<exists>result.
      get_snn_results [''counter_0_1'' \<mapsto> 3, ''counter_1_1'' \<mapsto> 5]
        two_node_input_graph 1 False unmarked_snn_graph = Inr result \<and>
      result ''passed'' = Some (PBool False))"
proof -
  have names: "counter_name 0 1 = ''counter_0_1''" "counter_name (Suc 0) 1 = ''counter_1_1''"
    by (simp_all add: counter_name_def str_int_def str_nat.simps digit_char_def)
  have upt: "[0..<length (nodes two_node_input_graph)] = [0, Suc 0]"
    by (simp add: two_node_input_graph_def upt_rec)
  have readout: "(if \<not> False
            then get_nx_LIF_count_without_redundancy two_node_input_graph unmarked_snn_graph 1
            else get_nx_LIF_count_with_redundancy two_node_input_graph unmarked_snn_graph 1)
           = Inr [''counter_0_1'' \<mapsto> 2, ''counter_1_1'' \<mapsto> 5]"
    by (simp add: get_nx_LIF_count_without_redundancy_def upt names read_u_def
        unmarked_snn_graph_def)
  from get_snn_results_passed [OF readout, of "[''counter_0_1'' \<mapsto> 2, ''counter_1_1'' \<mapsto> 5]"]
  have "\<exists>result.
      get_snn_results [''counter_0_1'' \<mapsto> 2, ''counter_1_1'' \<mapsto> 5]
        two_node_input_graph 1 False unmarked_snn_graph = Inr result \<and>
      result ''passed'' = Some (PBool True) \<and> result ''counter_1_1'' = Some (PInt 5)"
    by auto
  moreover
  from get_snn_results_passed [OF readout, of "[''counter_0_1'' \<mapsto> 3, ''counter_1_1'' \<mapsto> 5]"]
  have "\<exists>result.
      get_snn_results [''counter_0_1'' \<mapsto> 3, ''counter_1_1'' \<mapsto> 5]
        two_node_input_graph 1 False unmarked_snn_graph = Inr result \<and>
      result ''passed'' = Some (PBool False)"
    by auto
  ultimately show ?thesis by blast
qed

section \<open>Properties of stage 1\<close>

subsection \<open>Compiling\<close>

lemma snn_algo_graph_loop_returns:
  "snn_algo_graph_loop specify input_graph rc xs acc = Inr r \<Longrightarrow>
     (name, settings) \<in> set xs \<Longrightarrow>
     name = PStr ''MDSA'' \<and>
     (\<exists>v. settings ''m_val'' = Some v \<and> isinstance_int v)"
proof (induction xs arbitrary: acc)
  case Nil
  then show ?case by simp
next
  case (Cons x xs)
  obtain k s where x: "x = (k, s)" by (cases x)
  from Cons.prems(1) have k: "k = PStr ''MDSA''"
    by (simp add: x split: if_splits)
  from Cons.prems(1) k obtain v where v: "s ''m_val'' = Some v" "isinstance_int v"
    by (auto simp: x split: option.splits if_splits)
  from Cons.prems(1) k v obtain G where
    rest: "snn_algo_graph_loop specify input_graph rc xs (Some G) = Inr r"
    by (auto simp: x split: sum.splits)
  show ?case
  proof (cases "(name, settings) = x")
    case True
    with x k v show ?thesis by simp
  next
    case False
    with Cons.prems(2) have "(name, settings) \<in> set xs" by simp
    with Cons.IH [OF rest] show ?thesis by simp
  qed
qed

lemma get_snn_algo_graph_returns:
  assumes "get_snn_algo_graph specify input_graph rc = Inr G"
    and "(name, settings) \<in> set (algorithm rc)"
  shows "name = PStr ''MDSA'' \<and> (\<exists>v. settings ''m_val'' = Some v \<and> isinstance_int v)"
proof -
  from assms(1) obtain r where
    "snn_algo_graph_loop specify input_graph rc (algorithm rc) None = Inr r"
    by (auto simp: get_snn_algo_graph_def split: sum.splits)
  from snn_algo_graph_loop_returns [OF this assms(2)] show ?thesis .
qed

lemma two_distinct_keys:
  assumes "1 < length xs" "distinct (map fst xs)"
  shows "\<exists>k v. (k, v) \<in> set xs \<and> k \<noteq> a"
proof -
  from assms(1) obtain x y rest where xs: "xs = x # y # rest"
    by (cases xs; cases "tl xs") auto
  with assms(2) have "fst x \<noteq> fst y" by auto
  then have "fst x \<noteq> a \<or> fst y \<noteq> a" by auto
  then show ?thesis
  proof
    assume "fst x \<noteq> a"
    moreover have "(fst x, snd x) \<in> set xs" by (simp add: xs)
    ultimately show ?thesis by blast
  next
    assume "fst y \<noteq> a"
    moreover have "(fst y, snd y) \<in> set xs" by (simp add: xs)
    ultimately show ?thesis by blast
  qed
qed

text \<open>
  Claim C6. \<open>get_snn_algo_graph\<close> raises when an algorithm's \<open>m_val\<close> setting is not an
  \<open>int\<close> (or is missing), when more than one algorithm is requested (the names of a
  dictionary are distinct, so one of them is not MDSA), and when a requested algorithm is
  not named MDSA; with MDSA alone it raises the two configuration errors of the source.
  When MDSA is the one requested algorithm and \<open>m_val\<close> is an \<open>int\<close>, the function returns
  what the MDSA compiler returns for the input graph, \<open>m_val\<close> and the seed.
\<close>

theorem get_snn_algo_graph_errors:
  "((name, settings) \<in> set (algorithm rc) \<and>
      \<not> (\<exists>v. settings ''m_val'' = Some v \<and> isinstance_int v)
      \<longrightarrow> (\<exists>e. get_snn_algo_graph specify input_graph rc = Inl e)) \<and>
   (1 < length (algorithm rc) \<and> distinct (map fst (algorithm rc))
      \<longrightarrow> (\<exists>e. get_snn_algo_graph specify input_graph rc = Inl e)) \<and>
   ((name, settings) \<in> set (algorithm rc) \<and> name \<noteq> PStr ''MDSA''
      \<longrightarrow> (\<exists>e. get_snn_algo_graph specify input_graph rc = Inl e)) \<and>
   (algorithm rc = [(PStr ''MDSA'', settings)] \<and> settings ''m_val'' = Some v \<and> \<not> isinstance_int v
      \<longrightarrow> get_snn_algo_graph specify input_graph rc =
            Inl (Exception ''Error, m_val setting is not of type int.'')) \<and>
   (algorithm rc = [(name, settings)] \<and> name \<noteq> PStr ''MDSA''
      \<longrightarrow> get_snn_algo_graph specify input_graph rc =
            Inl (Exception ''Error, algo_name:{algo_name} is not (yet) supported.'')) \<and>
   (algorithm rc = [(PStr ''MDSA'', settings)] \<and> settings ''m_val'' = Some v \<and> isinstance_int v
      \<longrightarrow> get_snn_algo_graph specify input_graph rc = specify input_graph v (seed rc))"
proof -
  have fails: "\<exists>e. get_snn_algo_graph specify input_graph rc = Inl e"
    if "(k, s) \<in> set (algorithm rc)"
      and "k \<noteq> PStr ''MDSA'' \<or> \<not> (\<exists>v. s ''m_val'' = Some v \<and> isinstance_int v)" for k s
  proof (cases "get_snn_algo_graph specify input_graph rc")
    case (Inl e)
    then show ?thesis by blast
  next
    case (Inr G)
    from get_snn_algo_graph_returns [OF Inr that(1)] that(2) show ?thesis by blast
  qed
  have many: "\<exists>e. get_snn_algo_graph specify input_graph rc = Inl e"
    if "1 < length (algorithm rc)" "distinct (map fst (algorithm rc))"
  proof -
    from two_distinct_keys [OF that, of "PStr ''MDSA''"] obtain k s where
      "(k, s) \<in> set (algorithm rc)" "k \<noteq> PStr ''MDSA''" by blast
    then show ?thesis using fails by blast
  qed
  have single: "get_snn_algo_graph specify input_graph rc = specify input_graph v (seed rc)"
    if "algorithm rc = [(PStr ''MDSA'', settings)]" "settings ''m_val'' = Some v" "isinstance_int v"
    using that by (cases "specify input_graph v (seed rc)") (simp_all add: get_snn_algo_graph_def)
  have notint: "get_snn_algo_graph specify input_graph rc =
            Inl (Exception ''Error, m_val setting is not of type int.'')"
    if "algorithm rc = [(PStr ''MDSA'', settings)]" "settings ''m_val'' = Some v" "\<not> isinstance_int v"
    using that by (simp add: get_snn_algo_graph_def)
  have other: "get_snn_algo_graph specify input_graph rc =
            Inl (Exception ''Error, algo_name:{algo_name} is not (yet) supported.'')"
    if "algorithm rc = [(name, settings)]" "name \<noteq> PStr ''MDSA''"
    using that by (simp add: get_snn_algo_graph_def)
  show ?thesis
    using fails [of name settings] many single notint other by blast
qed

theorem get_snn_algo_graph_errors_witness:
  "get_snn_algo_graph (\<lambda>G m s. Inr unmarked_snn_graph) two_node_input_graph
       (example_run_config\<lparr>algorithm := [(PStr ''MDSA'', [''m_val'' \<mapsto> PFloat (3 / 2)])]\<rparr>)
     = Inl (Exception ''Error, m_val setting is not of type int.'') \<and>
   (\<exists>e. get_snn_algo_graph (\<lambda>G m s. Inr unmarked_snn_graph) two_node_input_graph
       (example_run_config\<lparr>algorithm :=
          [(PStr ''MDSA'', [''m_val'' \<mapsto> PInt 1]), (PStr ''other'', [''m_val'' \<mapsto> PInt 1])]\<rparr>)
     = Inl e) \<and>
   get_snn_algo_graph (\<lambda>G m s. Inr unmarked_snn_graph) two_node_input_graph
       (example_run_config\<lparr>algorithm := [(PStr ''other'', [''m_val'' \<mapsto> PInt 1])]\<rparr>)
     = Inl (Exception ''Error, algo_name:{algo_name} is not (yet) supported.'') \<and>
   get_snn_algo_graph (\<lambda>G m s. Inr unmarked_snn_graph) two_node_input_graph example_run_config
     = Inr unmarked_snn_graph"
proof -
  let ?spec = "\<lambda>(G :: (nat, unit) digraph) (m :: pyval) (s :: pyval).
                 (Inr unmarked_snn_graph :: error + unit snn_graph)"
  let ?a = "example_run_config\<lparr>algorithm := [(PStr ''MDSA'', [''m_val'' \<mapsto> PFloat (3 / 2)])]\<rparr>"
  let ?b = "example_run_config\<lparr>algorithm :=
          [(PStr ''MDSA'', [''m_val'' \<mapsto> PInt 1]), (PStr ''other'', [''m_val'' \<mapsto> PInt 1])]\<rparr>"
  let ?c = "example_run_config\<lparr>algorithm := [(PStr ''other'', [''m_val'' \<mapsto> PInt 1])]\<rparr>"
  have "get_snn_algo_graph ?spec two_node_input_graph ?a
     = Inl (Exception ''Error, m_val setting is not of type int.'')"
    using get_snn_algo_graph_errors
      [of "PStr ''MDSA''" "[''m_val'' \<mapsto> PFloat (3 / 2)]" ?a ?spec two_node_input_graph "PFloat (3 / 2)"]
    by simp
  moreover have "\<exists>e. get_snn_algo_graph ?spec two_node_input_graph ?b = Inl e"
    using get_snn_algo_graph_errors
      [of "PStr ''other''" "[''m_val'' \<mapsto> PInt 1]" ?b ?spec two_node_input_graph "PInt 1"]
    by simp
  moreover have "get_snn_algo_graph ?spec two_node_input_graph ?c
     = Inl (Exception ''Error, algo_name:{algo_name} is not (yet) supported.'')"
    using get_snn_algo_graph_errors
      [of "PStr ''other''" "[''m_val'' \<mapsto> PInt 1]" ?c ?spec two_node_input_graph "PInt 1"]
    by simp
  moreover have "get_snn_algo_graph ?spec two_node_input_graph example_run_config
     = Inr unmarked_snn_graph"
    using get_snn_algo_graph_errors
      [of "PStr ''MDSA''" "[''m_val'' \<mapsto> PInt 1]" example_run_config ?spec two_node_input_graph "PInt 1"]
    by (simp add: example_run_config_def)
  ultimately show ?thesis by blast
qed

subsection \<open>Redundancy\<close>

text \<open>
  Claim C3, as the code has it. \<open>get_redundant_graph\<close> accepts the redundancy level 1 and no
  other: level 0 raises, and so does every other level, above 1, strictly between 0 and 1
  or negative, none of which changes any graph. At level 1 it deep-copies the graph,
  applies the adaptation mechanism to the copy and returns the copy, a new object; every
  graph that existed before the call, the caller's compiled graph among them, is left as
  it was, also when the mechanism raises.
\<close>

theorem get_redundant_graph_levels:
  "(red_lev \<noteq> 1 \<longrightarrow>
      (\<exists>msg. get_redundant_graph implement h r red_lev = (h, Inl (Exception msg)))) \<and>
   (red_lev = 1 \<and> r < length h \<longrightarrow>
      (case implement (h ! r) of
         Inl e \<Rightarrow>
           \<exists>h'. get_redundant_graph implement h r red_lev = (h', Inl e) \<and>
                take (length h) h' = h
       | Inr G \<Rightarrow>
           \<exists>h'. get_redundant_graph implement h r red_lev = (h', Inr (length h)) \<and>
                take (length h) h' = h \<and> length h' = Suc (length h) \<and> h' ! length h = G))"
  by (cases "implement (h ! r)")
     (auto simp: get_redundant_graph_def deepcopy_def nth_append)

theorem get_redundant_graph_levels_witness:
  "get_redundant_graph (\<lambda>G. Inr (G\<lparr>graph_attrs := [''adapted'' \<mapsto> ()]\<rparr>)) [unmarked_snn_graph] 0 0
     = ([unmarked_snn_graph],
        Inl (Exception ''Redundancy level 0 not supported if adaptation is required.'')) \<and>
   get_redundant_graph (\<lambda>G. Inr (G\<lparr>graph_attrs := [''adapted'' \<mapsto> ()]\<rparr>)) [unmarked_snn_graph] 0 (3 / 2)
     = ([unmarked_snn_graph],
        Inl (Exception ''Error, redundancy level above 1 is currently not supported.'')) \<and>
   get_redundant_graph (\<lambda>G. Inr (G\<lparr>graph_attrs := [''adapted'' \<mapsto> ()]\<rparr>)) [unmarked_snn_graph] 0 1
     = ([unmarked_snn_graph, unmarked_snn_graph\<lparr>graph_attrs := [''adapted'' \<mapsto> ()]\<rparr>], Inr 1)"
proof -
  let ?f = "\<lambda>G :: unit snn_graph. (Inr (G\<lparr>graph_attrs := [''adapted'' \<mapsto> ()]\<rparr>) :: error + unit snn_graph)"
  from get_redundant_graph_levels [of 0 ?f "[unmarked_snn_graph]" 0]
  have a: "get_redundant_graph ?f [unmarked_snn_graph] 0 0
     = ([unmarked_snn_graph],
        Inl (Exception ''Redundancy level 0 not supported if adaptation is required.''))"
    by (simp add: get_redundant_graph_def)
  from get_redundant_graph_levels [of "3 / 2" ?f "[unmarked_snn_graph]" 0]
  have b: "get_redundant_graph ?f [unmarked_snn_graph] 0 (3 / 2)
     = ([unmarked_snn_graph],
        Inl (Exception ''Error, redundancy level above 1 is currently not supported.''))"
    by (simp add: get_redundant_graph_def)
  from get_redundant_graph_levels [of 1 ?f "[unmarked_snn_graph]" 0]
  obtain h' where "get_redundant_graph ?f [unmarked_snn_graph] 0 1 = (h', Inr 1)"
    "take 1 h' = [unmarked_snn_graph]" "length h' = 2"
    "h' ! 1 = unmarked_snn_graph\<lparr>graph_attrs := [''adapted'' \<mapsto> ()]\<rparr>"
    by auto
  moreover from this have "h' = [unmarked_snn_graph, unmarked_snn_graph\<lparr>graph_attrs := [''adapted'' \<mapsto> ()]\<rparr>]"
    by (cases h'; cases "tl h'") auto
  ultimately show ?thesis using a b by simp
qed

text \<open>The level 1/2 lies in (0, 1] and is rejected.\<close>

theorem get_redundant_graph_rejects_half:
  "0 < (1 / 2 :: real) \<and> (1 / 2 :: real) \<le> 1 \<and>
   get_redundant_graph Inr [unmarked_snn_graph] 0 (1 / 2) =
     ([unmarked_snn_graph],
      Inl (Exception ''Error, redundancy level above 1 is currently not supported.''))"
  by (simp add: get_redundant_graph_def)

subsection \<open>Adaptation\<close>

text \<open>
  Claim C8. When the adaptation dictionary of the run configuration has the key
  \<open>redundancy\<close> and its value is not a Python \<open>float\<close>, \<open>get_adapted_graph\<close> raises. The
  integer 1 is rejected with the type error of the source; the float 1.0 passes the check
  and the call does what \<open>get_redundant_graph\<close> does at level 1.
\<close>

theorem get_adapted_graph_float_check:
  "(map_of (adaptation rc) (PStr ''redundancy'') = Some v \<and> \<not> isinstance_float v \<longrightarrow>
      (\<exists>e. snd (get_adapted_graph implement h g rc) = Inl e)) \<and>
   (adaptation rc = [(PStr ''redundancy'', PInt 1)] \<longrightarrow>
      get_adapted_graph implement h g rc =
        (h, Inl (Exception ''Error, adaptation_setting=,which is not an int.''))) \<and>
   (adaptation rc = [(PStr ''redundancy'', PFloat 1)] \<longrightarrow>
      get_adapted_graph implement h g rc =
        (case get_redundant_graph implement h g 1 of
           (h', Inl e) \<Rightarrow> (h', Inl e)
         | (h', Inr adaptation_graph) \<Rightarrow> (h', Inr (Some adaptation_graph))))"
proof (intro conjI impI)
  assume a: "map_of (adaptation rc) (PStr ''redundancy'') = Some v \<and> \<not> isinstance_float v"
  then obtain k s rest where items: "adaptation rc = (k, s) # rest"
    by (cases "adaptation rc") auto
  show "\<exists>e. snd (get_adapted_graph implement h g rc) = Inl e"
  proof (cases "k = PStr ''redundancy''")
    case True
    with a items have "s = v" by simp
    with a True items show ?thesis
      by (cases v) (simp_all add: get_adapted_graph_def)
  next
    case False
    with items show ?thesis
      by (simp add: get_adapted_graph_def)
  qed
next
  assume "adaptation rc = [(PStr ''redundancy'', PInt 1)]"
  then show "get_adapted_graph implement h g rc =
        (h, Inl (Exception ''Error, adaptation_setting=,which is not an int.''))"
    by (simp add: get_adapted_graph_def)
next
  assume "adaptation rc = [(PStr ''redundancy'', PFloat 1)]"
  then show "get_adapted_graph implement h g rc =
        (case get_redundant_graph implement h g 1 of
           (h', Inl e) \<Rightarrow> (h', Inl e)
         | (h', Inr adaptation_graph) \<Rightarrow> (h', Inr (Some adaptation_graph)))"
    by (simp add: get_adapted_graph_def)
qed

theorem get_adapted_graph_float_check_witness:
  "get_adapted_graph (\<lambda>G. Inr (G\<lparr>graph_attrs := [''adapted'' \<mapsto> ()]\<rparr>)) [unmarked_snn_graph] 0
       (example_run_config\<lparr>adaptation := [(PStr ''redundancy'', PInt 1)]\<rparr>)
     = ([unmarked_snn_graph],
        Inl (Exception ''Error, adaptation_setting=,which is not an int.'')) \<and>
   (\<exists>e. snd (get_adapted_graph (\<lambda>G. Inr (G\<lparr>graph_attrs := [''adapted'' \<mapsto> ()]\<rparr>))
             [unmarked_snn_graph] 0
             (example_run_config\<lparr>adaptation :=
                [(PStr ''other'', PFloat 1), (PStr ''redundancy'', PBool True)]\<rparr>)) = Inl e) \<and>
   get_adapted_graph (\<lambda>G. Inr (G\<lparr>graph_attrs := [''adapted'' \<mapsto> ()]\<rparr>)) [unmarked_snn_graph] 0
       example_run_config
     = ([unmarked_snn_graph, unmarked_snn_graph\<lparr>graph_attrs := [''adapted'' \<mapsto> ()]\<rparr>],
        Inr (Some 1))"
proof -
  let ?f = "\<lambda>G :: unit snn_graph. (Inr (G\<lparr>graph_attrs := [''adapted'' \<mapsto> ()]\<rparr>) :: error + unit snn_graph)"
  let ?a = "example_run_config\<lparr>adaptation := [(PStr ''redundancy'', PInt 1)]\<rparr>"
  let ?b = "example_run_config\<lparr>adaptation :=
                [(PStr ''other'', PFloat 1), (PStr ''redundancy'', PBool True)]\<rparr>"
  have "get_adapted_graph ?f [unmarked_snn_graph] 0 ?a
     = ([unmarked_snn_graph],
        Inl (Exception ''Error, adaptation_setting=,which is not an int.''))"
    using get_adapted_graph_float_check [of ?a "PInt 1" ?f "[unmarked_snn_graph]" 0]
    by simp
  moreover have "\<exists>e. snd (get_adapted_graph ?f [unmarked_snn_graph] 0 ?b) = Inl e"
    using get_adapted_graph_float_check [of ?b "PBool True" ?f "[unmarked_snn_graph]" 0]
    by simp
  moreover have "get_adapted_graph ?f [unmarked_snn_graph] 0 example_run_config
     = ([unmarked_snn_graph, unmarked_snn_graph\<lparr>graph_attrs := [''adapted'' \<mapsto> ()]\<rparr>],
        Inr (Some 1))"
    using get_adapted_graph_float_check [of example_run_config "PFloat 1" ?f "[unmarked_snn_graph]" 0]
    by (simp add: example_run_config_def get_redundant_graph_def deepcopy_def)
  ultimately show ?thesis by blast
qed

section \<open>Properties of get\_mdsa\_snn\_results\<close>

lemma mdsa_snn_results_loop_skip_input:
  "\<forall>(k, v) \<in> set pre. k = ''input_graph'' \<and> (\<exists>G. v = Graph G) \<Longrightarrow>
     mdsa_snn_results_loop marks input_graph m_val (pre @ xs) latest results =
     mdsa_snn_results_loop marks input_graph m_val xs latest results"
proof (induction pre)
  case Nil
  show ?case by simp
next
  case (Cons x pre)
  from Cons.prems obtain G where x: "x = (''input_graph'', Graph G)"
    by (cases x) auto
  from Cons.prems have "\<forall>(k, v) \<in> set pre. k = ''input_graph'' \<and> (\<exists>G. v = Graph G)"
    by simp
  from Cons.IH [OF this] show ?case
    by (simp add: x)
qed

lemma mdsa_snn_results_loop_unbound:
  assumes "graph_name \<in> {''snn_algo_graph'', ''adapted_snn_graph'', ''rad_snn_algo_graph'',
             ''rad_adapted_snn_graph''}"
  shows "mdsa_snn_results_loop marks input_graph m_val ((graph_name, Graph G) # rest) None results
           = Inl (UnboundLocalError ''latest_snn_graph'')"
  using assms by (auto simp: read_latest_snn_graph_def)

lemma mdsa_snn_results_loop_ignores_named_graph:
  "mdsa_snn_results_loop marks input_graph m_val ((graph_name, Graph G) # rest) latest results =
   mdsa_snn_results_loop marks input_graph m_val ((graph_name, Graph G') # rest) latest results"
  by simp

text \<open>
  Claim C9. Let the first entry of \<open>stage_2_graphs\<close> that is not the input graph be a graph
  and not a list, under one of the four names the loop reads out. Then
  \<open>get_mdsa_snn_results\<close> raises: if the input graph, its \<open>alg_props\<close> and the reference
  counts were obtained, the readout of that entry reads the variable \<open>latest_snn_graph\<close>,
  which no list has bound yet, and fails with \<open>UnboundLocalError\<close>. (Later in the
  dictionary the variable keeps the last graph of the list seen before, and the named
  graph itself is never read, as the lemma above says.)
\<close>

theorem unbound_latest_snn_graph:
  assumes items: "stage_2_graphs = pre @ (graph_name, Graph G) # rest"
    and pre: "\<forall>(k, v) \<in> set pre. k = ''input_graph''"
    and keys: "distinct (map fst stage_2_graphs)"
    and name: "graph_name \<in> {''snn_algo_graph'', ''adapted_snn_graph'', ''rad_snn_algo_graph'',
             ''rad_adapted_snn_graph''}"
  shows "(\<exists>e. get_mdsa_snn_results get_alipour_nodes m_val stage_2_graphs = Inl e) \<and>
         (\<forall>input_graph alg_props marks.
            map_of stage_2_graphs ''input_graph'' = Some (Graph input_graph) \<and>
            graph_attrs input_graph ''alg_props'' = Some alg_props \<and>
            get_alipour_nodes input_graph m_val alg_props = Inr marks
            \<longrightarrow> get_mdsa_snn_results get_alipour_nodes m_val stage_2_graphs
                  = Inl (UnboundLocalError ''latest_snn_graph''))"
proof -
  have reached: "get_mdsa_snn_results get_alipour_nodes m_val stage_2_graphs
                  = Inl (UnboundLocalError ''latest_snn_graph'')"
    if ig: "map_of stage_2_graphs ''input_graph'' = Some (Graph input_graph)"
      and props: "graph_attrs input_graph ''alg_props'' = Some alg_props"
      and marks: "get_alipour_nodes input_graph m_val alg_props = Inr marks"
    for input_graph alg_props marks
  proof -
    have "\<forall>(k, v) \<in> set pre. k = ''input_graph'' \<and> (\<exists>G. v = Graph G)"
    proof (clarify)
      fix k v assume kv: "(k, v) \<in> set pre"
      with pre have k: "k = ''input_graph''" by auto
      from kv items have "(k, v) \<in> set stage_2_graphs" by simp
      with keys have "map_of stage_2_graphs k = Some v" by simp
      with ig k have "v = Graph input_graph" by simp
      with k show "k = ''input_graph'' \<and> (\<exists>G. v = Graph G)" by simp
    qed
    then have "mdsa_snn_results_loop marks input_graph m_val stage_2_graphs None Map.empty
        = mdsa_snn_results_loop marks input_graph m_val ((graph_name, Graph G) # rest) None Map.empty"
      unfolding items by (rule mdsa_snn_results_loop_skip_input)
    also have "\<dots> = Inl (UnboundLocalError ''latest_snn_graph'')"
      by (rule mdsa_snn_results_loop_unbound [OF name])
    finally show ?thesis
      using ig props marks by (simp add: get_mdsa_snn_results_def)
  qed
  have "\<exists>e. get_mdsa_snn_results get_alipour_nodes m_val stage_2_graphs = Inl e"
  proof (cases "map_of stage_2_graphs ''input_graph''")
    case None
    then show ?thesis by (simp add: get_mdsa_snn_results_def)
  next
    case (Some v)
    show ?thesis
    proof (cases v)
      case (Graphs gs)
      with Some show ?thesis by (simp add: get_mdsa_snn_results_def)
    next
      case (Graph input_graph)
      show ?thesis
      proof (cases "graph_attrs input_graph ''alg_props''")
        case None
        with Some Graph show ?thesis by (simp add: get_mdsa_snn_results_def)
      next
        case props: (Some alg_props)
        show ?thesis
        proof (cases "get_alipour_nodes input_graph m_val alg_props")
          case (Inl e)
          with Some Graph props show ?thesis by (simp add: get_mdsa_snn_results_def)
        next
          case (Inr marks)
          from reached [OF _ props Inr] Some Graph show ?thesis by simp
        qed
      qed
    qed
  qed
  with reached show ?thesis by blast
qed

theorem unbound_latest_snn_graph_witness:
  "get_mdsa_snn_results (\<lambda>G m props. Inr [''counter_0_1'' \<mapsto> 2, ''counter_1_1'' \<mapsto> 5]) 1
     [(''input_graph'', Graph (two_node_input_graph\<lparr>graph_attrs := [''alg_props'' \<mapsto> ()]\<rparr>)),
      (''snn_algo_graph'', Graph two_node_input_graph),
      (''adapted_snn_graph'', Graphs [unmarked_snn_graph])]
   = Inl (UnboundLocalError ''latest_snn_graph'')"
proof -
  let ?al = "\<lambda>(G :: (nat, unit) digraph) (m :: int) (props :: unit).
      (Inr [''counter_0_1'' \<mapsto> 2, ''counter_1_1'' \<mapsto> 5] :: error + (string \<rightharpoonup> int))"
  let ?ig = "two_node_input_graph\<lparr>graph_attrs := [''alg_props'' \<mapsto> ()]\<rparr>"
  let ?items = "[(''input_graph'', Graph ?ig),
      (''snn_algo_graph'', Graph two_node_input_graph),
      (''adapted_snn_graph'', Graphs [unmarked_snn_graph])]
      :: (string \<times> (nat, unit, unit) stage_2_value) list"
  have items: "?items = [(''input_graph'', Graph ?ig)] @
      (''snn_algo_graph'', Graph two_node_input_graph) # [(''adapted_snn_graph'', Graphs [unmarked_snn_graph])]"
    by simp
  have pre: "\<forall>(k, v) \<in> set [(''input_graph'', Graph ?ig) :: string \<times> (nat, unit, unit) stage_2_value].
      k = ''input_graph''" by simp
  have keys: "distinct (map fst ?items)" by simp
  have name: "''snn_algo_graph'' \<in> {''snn_algo_graph'', ''adapted_snn_graph'', ''rad_snn_algo_graph'',
             ''rad_adapted_snn_graph''}" by simp
  from unbound_latest_snn_graph [OF items pre keys name, of ?al 1]
  show ?thesis by simp
qed

section \<open>Properties of stage 2\<close>

lemma assert_edges_loop_Inr:
  "(assert_edges_loop H G es = Inr ()) =
     (\<forall>ed \<in> set es. assert_synaptic_edgeweight_type_is_correct H G ed = Inr ())"
proof (induction es)
  case Nil
  show ?case by simp
next
  case (Cons ed es)
  show ?case
    by (cases "assert_synaptic_edgeweight_type_is_correct H G ed") (simp_all add: Cons.IH)
qed

lemma convert_graph_snn_to_nx_snn_checked:
  assumes "convert_graph_snn_to_nx_snn H G = Inr G2"
  shows "(\<forall>ed \<in> set (edges G).
            assert_synaptic_edgeweight_type_is_correct H G (fst ed) = Inr ()) \<and>
         assert_no_duplicate_edges_exist H G = Inr () \<and>
         (\<exists>G1. old_graph_to_new_graph_properties H G = Inr G1 \<and>
               verify_networkx_snn_spec H G1 0 = Inr () \<and>
               add_nx_neurons_to_networkx_graph H G1 0 = Inr G2)"
proof -
  from assms have a: "assert_edges_loop H G (map fst (edges G)) = Inr ()"
    by (simp add: convert_graph_snn_to_nx_snn_def split: sum.splits)
  with assms have b: "assert_no_duplicate_edges_exist H G = Inr ()"
    by (simp add: convert_graph_snn_to_nx_snn_def split: sum.splits)
  from assms a b obtain G1 where c: "old_graph_to_new_graph_properties H G = Inr G1"
    by (auto simp: convert_graph_snn_to_nx_snn_def split: sum.splits)
  from assms a b c have d: "verify_networkx_snn_spec H G1 0 = Inr ()"
    by (simp add: convert_graph_snn_to_nx_snn_def split: sum.splits)
  from assms a b c d have e: "add_nx_neurons_to_networkx_graph H G1 0 = Inr G2"
    by (simp add: convert_graph_snn_to_nx_snn_def)
  from a have "\<forall>ed \<in> set (edges G).
            assert_synaptic_edgeweight_type_is_correct H G (fst ed) = Inr ()"
    by (simp add: assert_edges_loop_Inr)
  with b c d e show ?thesis by blast
qed

lemma convert_graph_snn_to_nx_snn_fails:
  assumes "(\<exists>ed \<in> set (edges G). \<exists>e.
              assert_synaptic_edgeweight_type_is_correct H G (fst ed) = Inl e) \<or>
           (\<exists>e. assert_no_duplicate_edges_exist H G = Inl e) \<or>
           (\<exists>G1 e. old_graph_to_new_graph_properties H G = Inr G1 \<and>
                   verify_networkx_snn_spec H G1 0 = Inl e)"
  shows "\<exists>e. convert_graph_snn_to_nx_snn H G = Inl e"
proof (cases "convert_graph_snn_to_nx_snn H G")
  case (Inl e)
  then show ?thesis by blast
next
  case (Inr G2)
  from convert_graph_snn_to_nx_snn_checked [OF Inr] assms show ?thesis
    by auto
qed

lemma sim_graph_calls:
  assumes "sim_graph H rc graph_name snn_graph calls = (calls', r)"
  shows "calls' = calls \<or>
         (graph_name \<noteq> ''input_graph'' \<and>
          (\<exists>G1 d d'. convert_graph_snn_to_nx_snn H snn_graph = Inr G1 \<and>
             calls' = calls @ [(graph_name,
               G1\<lparr>graph_attrs := (graph_attrs G1)(''sim_duration'' \<mapsto> PInt d)\<rparr>, d')]))"
  using assms
  by (auto simp: sim_graph_def split: if_splits sum.splits)

lemma sim_graphs_loop_calls:
  "sim_graphs_loop H rc items calls = (calls', r) \<Longrightarrow>
     \<exists>new. calls' = calls @ new \<and>
       (\<forall>(n, G, d) \<in> set new. n \<noteq> ''input_graph'' \<and>
          (\<exists>G0 G1 d0. (n, G0) \<in> set items \<and> convert_graph_snn_to_nx_snn H G0 = Inr G1 \<and>
             G = G1\<lparr>graph_attrs := (graph_attrs G1)(''sim_duration'' \<mapsto> PInt d0)\<rparr>))"
proof (induction items arbitrary: calls calls' r)
  case Nil
  then show ?case by simp
next
  case (Cons x items)
  obtain k g where x: "x = (k, g)" by (cases x)
  obtain calls1 r1 where one: "sim_graph H rc k g calls = (calls1, r1)"
    by (cases "sim_graph H rc k g calls")
  let ?P = "\<lambda>its new. \<forall>(n, G, d) \<in> set new. n \<noteq> ''input_graph'' \<and>
          (\<exists>G0 G1 d0. (n, G0) \<in> set its \<and> convert_graph_snn_to_nx_snn H G0 = Inr G1 \<and>
             G = G1\<lparr>graph_attrs := (graph_attrs G1)(''sim_duration'' \<mapsto> PInt d0)\<rparr>)"
  from sim_graph_calls [OF one] obtain new1 where
    new1: "calls1 = calls @ new1" "?P (x # items) new1"
  proof
    assume "calls1 = calls"
    then have "calls1 = calls @ []" "?P (x # items) []" by simp_all
    then show ?thesis by (rule that)
  next
    assume "k \<noteq> ''input_graph'' \<and>
          (\<exists>G1 d d'. convert_graph_snn_to_nx_snn H g = Inr G1 \<and>
             calls1 = calls @ [(k,
               G1\<lparr>graph_attrs := (graph_attrs G1)(''sim_duration'' \<mapsto> PInt d)\<rparr>, d')])"
    then obtain G1 d d' where k: "k \<noteq> ''input_graph''"
      and c: "convert_graph_snn_to_nx_snn H g = Inr G1"
      and l: "calls1 = calls @ [(k,
               G1\<lparr>graph_attrs := (graph_attrs G1)(''sim_duration'' \<mapsto> PInt d)\<rparr>, d')]"
      by blast
    have "?P (x # items) [(k,
               G1\<lparr>graph_attrs := (graph_attrs G1)(''sim_duration'' \<mapsto> PInt d)\<rparr>, d')]"
      using k c x by auto
    with l show ?thesis by (rule that)
  qed
  show ?case
  proof (cases r1)
    case (Inl e)
    with Cons.prems one x have "calls' = calls1" by simp
    with new1 show ?thesis by blast
  next
    case (Inr G')
    obtain calls2 r2 where rest: "sim_graphs_loop H rc items calls1 = (calls2, r2)"
      by (cases "sim_graphs_loop H rc items calls1")
    with Cons.prems one x Inr have c2: "calls' = calls2"
      by (simp split: sum.splits)
    from Cons.IH [OF rest] obtain new2 where
      new2: "calls2 = calls1 @ new2" "?P items new2" by blast
    from new2(2) have "?P (x # items) new2" by fastforce
    with new1(2) have "?P (x # items) (new1 @ new2)" by auto
    moreover from c2 new1(1) new2(1) have "calls' = calls @ (new1 @ new2)" by simp
    ultimately show ?thesis by blast
  qed
qed

lemma sim_graphs_loop_fails:
  "(name, G0) \<in> set items \<Longrightarrow> name \<noteq> ''input_graph'' \<Longrightarrow>
     convert_graph_snn_to_nx_snn H G0 = Inl e \<Longrightarrow> distinct (map fst items) \<Longrightarrow>
     \<exists>e'. snd (sim_graphs_loop H rc items calls) = Inl e'"
proof (induction items arbitrary: calls)
  case Nil
  then show ?case by simp
next
  case (Cons x items)
  obtain k g where x: "x = (k, g)" by (cases x)
  obtain calls1 r1 where one: "sim_graph H rc k g calls = (calls1, r1)"
    by (cases "sim_graph H rc k g calls")
  show ?case
  proof (cases r1)
    case (Inl e1)
    with one x show ?thesis by simp
  next
    case (Inr G')
    have "(name, G0) \<noteq> x"
    proof
      assume "(name, G0) = x"
      with x have "k = name" "g = G0" by simp_all
      with Cons.prems(2,3) one Inr show False
        by (simp add: sim_graph_def)
    qed
    with Cons.prems(1) have mem: "(name, G0) \<in> set items" by simp
    from Cons.prems(4) have "distinct (map fst items)" by simp
    from Cons.IH [OF mem Cons.prems(2,3) this, of calls1] obtain e' where
      "snd (sim_graphs_loop H rc items calls1) = Inl e'" by blast
    with one x Inr show ?thesis
      by (cases "sim_graphs_loop H rc items calls1") simp
  qed
qed

text \<open>
  Claim C5. Whatever the checks and the engine are: every call of \<open>run_snn_on_networkx\<close>
  that \<open>sim_graphs\<close> makes is for a graph of the dictionary (not the input graph) on which
  the edge-weight check of every edge, the duplicate-edge check and, after the node
  properties were converted, the check of the neuron attributes at \<open>t = 0\<close> have all
  returned. And when a graph of the dictionary fails one of the three checks,
  \<open>sim_graphs\<close> raises and the engine is never called for that graph.
\<close>

theorem checks_before_simulation:
  "(\<forall>(n, G, d) \<in> set (fst (sim_graphs H stage_1_graphs rc)).
      n \<noteq> ''input_graph'' \<and>
      (\<exists>G0 G1 G2 d0. (n, G0) \<in> set stage_1_graphs \<and>
         (\<forall>ed \<in> set (edges G0).
            assert_synaptic_edgeweight_type_is_correct H G0 (fst ed) = Inr ()) \<and>
         assert_no_duplicate_edges_exist H G0 = Inr () \<and>
         old_graph_to_new_graph_properties H G0 = Inr G1 \<and>
         verify_networkx_snn_spec H G1 0 = Inr () \<and>
         add_nx_neurons_to_networkx_graph H G1 0 = Inr G2 \<and>
         G = G2\<lparr>graph_attrs := (graph_attrs G2)(''sim_duration'' \<mapsto> PInt d0)\<rparr>)) \<and>
   (distinct (map fst stage_1_graphs) \<and> (name, snn_graph) \<in> set stage_1_graphs \<and>
    name \<noteq> ''input_graph'' \<and>
    ((\<exists>ed \<in> set (edges snn_graph). \<exists>e.
        assert_synaptic_edgeweight_type_is_correct H snn_graph (fst ed) = Inl e) \<or>
     (\<exists>e. assert_no_duplicate_edges_exist H snn_graph = Inl e) \<or>
     (\<exists>G1 e. old_graph_to_new_graph_properties H snn_graph = Inr G1 \<and>
             verify_networkx_snn_spec H G1 0 = Inl e))
    \<longrightarrow> (\<exists>e. snd (sim_graphs H stage_1_graphs rc) = Inl e) \<and>
        (\<forall>(n, G, d) \<in> set (fst (sim_graphs H stage_1_graphs rc)). n \<noteq> name))"
proof -
  obtain calls r where res: "sim_graphs_loop H rc stage_1_graphs [] = (calls, r)"
    by (cases "sim_graphs_loop H rc stage_1_graphs []")
  from sim_graphs_loop_calls [OF res]
  have log: "\<forall>(n, G, d) \<in> set calls. n \<noteq> ''input_graph'' \<and>
          (\<exists>G0 G1 d0. (n, G0) \<in> set stage_1_graphs \<and> convert_graph_snn_to_nx_snn H G0 = Inr G1 \<and>
             G = G1\<lparr>graph_attrs := (graph_attrs G1)(''sim_duration'' \<mapsto> PInt d0)\<rparr>)"
    by simp
  have first: "\<forall>(n, G, d) \<in> set calls.
      n \<noteq> ''input_graph'' \<and>
      (\<exists>G0 G1 G2 d0. (n, G0) \<in> set stage_1_graphs \<and>
         (\<forall>ed \<in> set (edges G0).
            assert_synaptic_edgeweight_type_is_correct H G0 (fst ed) = Inr ()) \<and>
         assert_no_duplicate_edges_exist H G0 = Inr () \<and>
         old_graph_to_new_graph_properties H G0 = Inr G1 \<and>
         verify_networkx_snn_spec H G1 0 = Inr () \<and>
         add_nx_neurons_to_networkx_graph H G1 0 = Inr G2 \<and>
         G = G2\<lparr>graph_attrs := (graph_attrs G2)(''sim_duration'' \<mapsto> PInt d0)\<rparr>)"
  proof (clarify, rule conjI)
    fix n G d assume "(n, G, d) \<in> set calls"
    with log show "n \<noteq> ''input_graph''" by auto
  next
    fix n G d assume "(n, G, d) \<in> set calls"
    with log obtain G0 G2 d0 where mem: "(n, G0) \<in> set stage_1_graphs"
      and c: "convert_graph_snn_to_nx_snn H G0 = Inr G2"
      and G: "G = G2\<lparr>graph_attrs := (graph_attrs G2)(''sim_duration'' \<mapsto> PInt d0)\<rparr>"
      by fastforce
    from convert_graph_snn_to_nx_snn_checked [OF c] mem G
    show "\<exists>G0 G1 G2 d0. (n, G0) \<in> set stage_1_graphs \<and>
         (\<forall>ed \<in> set (edges G0).
            assert_synaptic_edgeweight_type_is_correct H G0 (fst ed) = Inr ()) \<and>
         assert_no_duplicate_edges_exist H G0 = Inr () \<and>
         old_graph_to_new_graph_properties H G0 = Inr G1 \<and>
         verify_networkx_snn_spec H G1 0 = Inr () \<and>
         add_nx_neurons_to_networkx_graph H G1 0 = Inr G2 \<and>
         G = G2\<lparr>graph_attrs := (graph_attrs G2)(''sim_duration'' \<mapsto> PInt d0)\<rparr>"
      by blast
  qed
  have second: "(\<exists>e. r = Inl e) \<and> (\<forall>(n, G, d) \<in> set calls. n \<noteq> name)"
    if keys: "distinct (map fst stage_1_graphs)" and mem: "(name, snn_graph) \<in> set stage_1_graphs"
      and name: "name \<noteq> ''input_graph''"
      and bad: "(\<exists>ed \<in> set (edges snn_graph). \<exists>e.
        assert_synaptic_edgeweight_type_is_correct H snn_graph (fst ed) = Inl e) \<or>
     (\<exists>e. assert_no_duplicate_edges_exist H snn_graph = Inl e) \<or>
     (\<exists>G1 e. old_graph_to_new_graph_properties H snn_graph = Inr G1 \<and>
             verify_networkx_snn_spec H G1 0 = Inl e)"
  proof
    from convert_graph_snn_to_nx_snn_fails [OF bad] obtain e where
      e: "convert_graph_snn_to_nx_snn H snn_graph = Inl e" by blast
    from sim_graphs_loop_fails [OF mem name e keys, of rc "[]"] res
    show "\<exists>e. r = Inl e" by simp
    show "\<forall>(n, G, d) \<in> set calls. n \<noteq> name"
    proof (clarify)
      fix G d assume "(name, G, d) \<in> set calls"
      with log obtain G0 G1 where "(name, G0) \<in> set stage_1_graphs"
        "convert_graph_snn_to_nx_snn H G0 = Inr G1" by fastforce
      moreover from this(1) mem keys have "G0 = snn_graph"
        by (meson eq_key_imp_eq_value)
      ultimately show False using e by simp
    qed
  qed
  from first second res show ?thesis
    by (simp add: sim_graphs_def)
qed

text \<open>A graph with a node that lacks \<open>vth\<close> stops stage 2 before the engine runs; the
  complete graph is simulated.\<close>

theorem checks_before_simulation_witness:
  "sim_graphs example_sim_helpers
     [(''input_graph'', get_networkx_graph_of_2_neurons), (''snn_algo_graph'', graph_missing_vth)]
     example_run_config
   = ([], Inl (Exception ''neuron property missing or of the wrong type'')) \<and>
   fst (sim_graphs example_sim_helpers
     [(''input_graph'', get_networkx_graph_of_2_neurons),
      (''snn_algo_graph'', get_networkx_graph_of_2_neurons)]
     example_run_config)
   = [(''snn_algo_graph'',
       get_networkx_graph_of_2_neurons\<lparr>graph_attrs := [''sim_duration'' \<mapsto> PInt 2]\<rparr>, 2)]"
proof -
  let ?bad = "[(''input_graph'', get_networkx_graph_of_2_neurons),
              (''snn_algo_graph'', graph_missing_vth)]"
  have verify: "verify_networkx_snn_spec example_sim_helpers graph_missing_vth 0
      = Inl (Exception ''neuron property missing or of the wrong type'')"
    by (simp add: example_sim_helpers_def spec_verify_networkx_snn_spec_def
        graph_missing_vth_def is_number_def)
  have old: "old_graph_to_new_graph_properties example_sim_helpers graph_missing_vth
      = Inr graph_missing_vth"
    by (simp add: example_sim_helpers_def)
  from checks_before_simulation [of example_sim_helpers ?bad example_run_config "''snn_algo_graph''" graph_missing_vth]
    verify old
  have "(\<exists>e. snd (sim_graphs example_sim_helpers ?bad example_run_config) = Inl e) \<and>
        (\<forall>(n, G, d) \<in> set (fst (sim_graphs example_sim_helpers ?bad example_run_config)).
           n \<noteq> ''snn_algo_graph'')"
    by auto
  moreover have "sim_graphs example_sim_helpers ?bad example_run_config
   = ([], Inl (Exception ''neuron property missing or of the wrong type''))"
    using verify old
    by (simp add: sim_graphs_def sim_graph_def convert_graph_snn_to_nx_snn_def
        example_sim_helpers_def graph_missing_vth_def)
  moreover have "fst (sim_graphs example_sim_helpers
     [(''input_graph'', get_networkx_graph_of_2_neurons),
      (''snn_algo_graph'', get_networkx_graph_of_2_neurons)]
     example_run_config)
   = [(''snn_algo_graph'',
       get_networkx_graph_of_2_neurons\<lparr>graph_attrs := [''sim_duration'' \<mapsto> PInt 2]\<rparr>, 2)]"
    by (simp add: sim_graphs_def sim_graph_def convert_graph_snn_to_nx_snn_def
        example_sim_helpers_def spec_verify_networkx_snn_spec_def is_number_def
        get_networkx_graph_of_2_neurons_def)
  ultimately show ?thesis by blast
qed

end
